theory Spec2Isabelle
  imports Complex_Main "HOL-Library.Multiset"
begin

section \<open>Tables of the water-contamination analysis\<close>

text \<open>
  The library works on pandas tables. A table is modelled as the list of its rows, in row
  order, and the row index is the default positional one (0, 1, 2, ...) that
  \<^verbatim>\<open>reset_index()\<close> leaves on every table built by \<^verbatim>\<open>waco.sim\<close>.
  Node identifiers (strings or integers in the source) are a type parameter; simulation
  times are 64-bit integers (seconds), written as integers with the wrap-around of int64
  arithmetic spelled out where the code computes with them; concentrations, demands and
  volumes are floats, idealised as real numbers (no NaN, no rounding). Column labels of
  one table are taken to be distinct.
\<close>

datatype error =
  IndexError | ValueError | KeyError | TypeError | OSError | EpanetException

text \<open>The values of an int64, and the result of an int64 operation that overflows.\<close>

definition is_int64 :: "int \<Rightarrow> bool" where
  "is_int64 x \<longleftrightarrow> - (2 ^ 63) \<le> x \<and> x < 2 ^ 63"

definition int64_wrap :: "int \<Rightarrow> int" where
  "int64_wrap x = (x + 2 ^ 63) mod 2 ^ 64 - 2 ^ 63"

text \<open>
  A cell of a float column whose finiteness matters to the code: the \<^verbatim>\<open>time\<close> column of a
  detection-time table, which line 88 of the analyzer casts to int.
\<close>

datatype float64 = Finite real | PosInf | NegInf | NaN

text \<open>
  The contaminant trace: columns \<^verbatim>\<open>time\<close>, \<^verbatim>\<open>node\<close> and one column per injection
  node (scenario). A row gives, for each scenario column, the trace percentage.
\<close>

record 'n trace_row =
  tr_time :: int
  tr_node :: 'n
  tr_conc :: "'n \<Rightarrow> real"

record 'n trace_frame =
  scenario_cols :: "'n list"
  tr_rows :: "'n trace_row list"

text \<open>The demand table: columns \<^verbatim>\<open>time\<close>, \<^verbatim>\<open>node\<close>, \<^verbatim>\<open>demand\<close>.\<close>

record 'n demand_row =
  dm_time :: int
  dm_node :: 'n
  dm_demand :: real

text \<open>
  The detection-time table: columns \<^verbatim>\<open>node\<close>, \<^verbatim>\<open>inj_node\<close>, \<^verbatim>\<open>time\<close>. Its time
  column is a float column as soon as one pair was filled with the sentinel.
\<close>

record 'n det_row =
  dt_node :: 'n
  dt_inj_node :: 'n
  dt_time :: float64

text \<open>The volume table: columns \<^verbatim>\<open>node\<close>, \<^verbatim>\<open>inj_node\<close>, \<^verbatim>\<open>volume\<close>.\<close>

record 'n vol_row =
  vr_node :: 'n
  vr_inj_node :: 'n
  vr_volume :: real

section \<open>analyzer.detection\_time\<close>

text \<open>
  Lines 33-35: \<^verbatim>\<open>times = sorted(trace["time"].unique())\<close> and
  \<^verbatim>\<open>times[-1] + (times[-1] - times[-2])\<close>. Both negative subscripts raise IndexError
  on a list that is too short. The elements are numpy int64 scalars: the difference and
  the sum wrap around when they overflow.
\<close>

definition default_non_detection_value :: "'n trace_frame \<Rightarrow> error + real" where
  "default_non_detection_value trace =
     (let times = sort (remdups (map tr_time (tr_rows trace)))
      in if length times < 2 then Inl IndexError
         else Inr (real_of_int
                (int64_wrap (last times
                   + int64_wrap (last times - times ! (length times - 2))))))"

text \<open>
  \<^verbatim>\<open>trace.groupby("node")\<close>: the group of a node is the rows of that node, in row order,
  each still carrying its index label. \<open>group_series\<close> is the column of one scenario
  within one group, as (index label, value) pairs.
\<close>

definition group_index :: "'n trace_frame \<Rightarrow> 'n \<Rightarrow> nat list" where
  "group_index trace n =
     filter (\<lambda>i. tr_node (tr_rows trace ! i) = n) [0..<length (tr_rows trace)]"

definition group_series :: "'n trace_frame \<Rightarrow> 'n \<Rightarrow> 'n \<Rightarrow> (nat \<times> real) list" where
  "group_series trace n col =
     map (\<lambda>i. (i, tr_conc (tr_rows trace ! i) col)) (group_index trace n)"

text \<open>
  Lines 37-39: \<^verbatim>\<open>series[series > sensibility]\<close>, then the \<^verbatim>\<open>time\<close> of the row whose
  index label is the first one left, or None when nothing is left.
\<close>

definition first_T_greater_than ::
  "'n trace_frame \<Rightarrow> real \<Rightarrow> (nat \<times> real) list \<Rightarrow> int option" where
  "first_T_greater_than trace sensibility series =
     (case filter (\<lambda>(i, v). sensibility < v) series of
        [] \<Rightarrow> None
      | (i, v) # rest \<Rightarrow> Some (tr_time (tr_rows trace ! i)))"

text \<open>
  Lines 41-47. The aggregation has one row per node, in sorted node order, and one column
  per scenario, in column order; \<^verbatim>\<open>fillna\<close> puts the sentinel where the aggregate is
  None; \<^verbatim>\<open>stack\<close> lists the cells row by row. Aggregating with an empty dictionary (a
  trace without scenario columns) has nothing to concatenate and raises.
\<close>

definition detection_time ::
  "('n::linorder) trace_frame \<Rightarrow> real \<Rightarrow> real option \<Rightarrow> error + 'n det_row list" where
  "detection_time trace sensibility non_detection_value =
     (case (case non_detection_value of
              None \<Rightarrow> default_non_detection_value trace
            | Some v \<Rightarrow> Inr v) of
        Inl e \<Rightarrow> Inl e
      | Inr ndv \<Rightarrow>
          if scenario_cols trace = [] then Inl ValueError
          else Inr (concat (map (\<lambda>n. map (\<lambda>col.
                 \<lparr>dt_node = n, dt_inj_node = col,
                  dt_time = (case first_T_greater_than trace sensibility
                                    (group_series trace n col) of
                               None \<Rightarrow> Finite ndv
                             | Some t \<Rightarrow> Finite (real_of_int t))\<rparr>)
                 (scenario_cols trace))
               (sort (remdups (map tr_node (tr_rows trace)))))))"

section \<open>analyzer.contaminated\_volume\<close>

text \<open>
  The three arguments are objects of the caller; the function returns them as they are
  after the call, next to its result or the exception it raised. \<open>arg_int_ids\<close> tells
  whether the \<^verbatim>\<open>inj_node\<close> column of \<^verbatim>\<open>det_time\<close> has an integer dtype (the node
  identifiers are integers): numpy then makes \<^verbatim>\<open>idxs\<close> an integer array in line 97.
\<close>

record 'n cv_args =
  arg_trace :: "'n trace_frame"
  arg_demand :: "'n demand_row list"
  arg_det_time :: "'n det_row list"
  arg_int_ids :: bool

text \<open>Line 87: \<^verbatim>\<open>trace["time"].max()\<close>, NaN (here None) on a trace without rows.\<close>

definition max_sim_time :: "'n trace_frame \<Rightarrow> int option" where
  "max_sim_time trace =
     (if tr_rows trace = [] then None else Some (Max (set (map tr_time (tr_rows trace)))))"

text \<open>
  Line 88: \<^verbatim>\<open>astype(int)\<close> casts the column to int64. The cast of a finite float cuts
  its fraction off, towards zero; a float whose integer part is not an int64 becomes
  \<open>- 2 ^ 63\<close> (the result of the conversion instruction of x86-64), and so do NaN and
  the infinities in numpy's cast. pandas checks the column first: with a NaN or an infinite
  cell it raises, a ValueError, and nothing is cast or stored.
\<close>

definition int64_cast :: "real \<Rightarrow> int" where
  "int64_cast x =
     (let t = (if 0 \<le> x then \<lfloor>x\<rfloor> else \<lceil>x\<rceil>)
      in if is_int64 t then t else - (2 ^ 63))"

definition is_finite :: "float64 \<Rightarrow> bool" where
  "is_finite x = (case x of Finite v \<Rightarrow> True | PosInf \<Rightarrow> False | NegInf \<Rightarrow> False
                  | NaN \<Rightarrow> False)"

definition cast_cell :: "float64 \<Rightarrow> int" where
  "cast_cell x = (case x of Finite v \<Rightarrow> int64_cast v | PosInf \<Rightarrow> - (2 ^ 63)
                  | NegInf \<Rightarrow> - (2 ^ 63) | NaN \<Rightarrow> - (2 ^ 63))"

definition astype_int :: "float64 list \<Rightarrow> error + int list" where
  "astype_int column =
     (if list_all is_finite column then Inr (map cast_cell column) else Inl ValueError)"

text \<open>
  Line 93: \<^verbatim>\<open>trace[scenario_names].mul(0.01 * demand["demand"], axis=0)\<close> aligns the
  rows of the trace with the entries of the demand column on the row index, that is, by
  position; the \<^verbatim>\<open>time\<close> and \<^verbatim>\<open>node\<close> columns of the demand table are not read. A row
  of the trace beyond the end of the demand table is multiplied by NaN (None); rows that
  only the demand table has get a NaN time in line 94 and are dropped by the group-by of
  line 95. \<open>mul_axis0\<close> pairs each row of the trace with its factor, and \<open>mul_cell\<close> is
  the product in one scenario column.
\<close>

fun mul_axis0 :: "'n trace_row list \<Rightarrow> 'n demand_row list \<Rightarrow> ('n trace_row \<times> real option) list" where
  "mul_axis0 [] ds = []"
| "mul_axis0 (r # rs) [] = (r, None) # mul_axis0 rs []"
| "mul_axis0 (r # rs) (d # ds) = (r, Some (0.01 * dm_demand d)) # mul_axis0 rs ds"

definition mul_cell :: "'n trace_row \<times> real option \<Rightarrow> 'n \<Rightarrow> real option" where
  "mul_cell p col = (case snd p of None \<Rightarrow> None | Some f \<Rightarrow> Some (tr_conc (fst p) col * f))"

text \<open>The sum of a group skips NaN.\<close>

definition nansum :: "real option list \<Rightarrow> real" where
  "nansum vs = sum_list (map (\<lambda>v. case v of None \<Rightarrow> 0 | Some x \<Rightarrow> x) vs)"

text \<open>
  Lines 93-95: \<^verbatim>\<open>contam_vol\<close> after \<^verbatim>\<open>groupby(["time"]).sum().stack()\<close>, a series
  indexed by (time, scenario): one entry for every time of the trace and every scenario
  column, the sum of the products over all rows of that time.
\<close>

definition contam_vol :: "'n trace_frame \<Rightarrow> 'n demand_row list \<Rightarrow> int \<times> 'n \<Rightarrow> real option" where
  "contam_vol trace demand = (\<lambda>(t, col).
     if t \<in> set (map tr_time (tr_rows trace)) \<and> col \<in> set (scenario_cols trace)
     then Some (nansum (map (\<lambda>p. mul_cell p col)
                  (filter (\<lambda>p. tr_time (fst p) = t) (mul_axis0 (tr_rows trace) demand))))
     else None)"

text \<open>
  Line 98: times greater than the maximum are set to it; no time is greater than the NaN
  maximum of a trace without rows.
\<close>

definition clamp_time :: "int option \<Rightarrow> int \<Rightarrow> int" where
  "clamp_time m t = (case m of None \<Rightarrow> t | Some mx \<Rightarrow> if mx < t then mx else t)"

text \<open>
  Lines 87-103. Line 88 stores the cast column into the caller's table, unless the cast
  raises. Line 98 assigns the maximum into \<^verbatim>\<open>idxs\<close>, whatever the number of rows it
  selects: numpy raises ValueError when the maximum is NaN (a trace without rows) and
  \<^verbatim>\<open>idxs\<close> is an integer array. Line 99 builds a multi-index from the list of
  (time, inj\_node) keys, which raises TypeError on an empty list, and selects the keys
  from \<^verbatim>\<open>contam_vol\<close>, which raises KeyError when a key is not in its index.
\<close>

definition contaminated_volume :: "'n cv_args \<Rightarrow> 'n cv_args \<times> (error + 'n vol_row list)" where
  "contaminated_volume args =
     (let trace = arg_trace args;
          demand = arg_demand args;
          mx = max_sim_time trace
      in case astype_int (map dt_time (arg_det_time args)) of
           Inl e \<Rightarrow> (args, Inl e)
         | Inr time_int \<Rightarrow>
             (let det_time = map2 (\<lambda>r t. r\<lparr>dt_time := Finite (real_of_int t)\<rparr>)
                               (arg_det_time args) time_int;
                  args' = args\<lparr>arg_det_time := det_time\<rparr>;
                  idxs = map2 (\<lambda>t r. (clamp_time mx t, dt_inj_node r)) time_int det_time
              in if mx = None \<and> arg_int_ids args then (args', Inl ValueError)
                 else if idxs = [] then (args', Inl TypeError)
                 else case those (map (contam_vol trace demand) idxs) of
                        None \<Rightarrow> (args', Inl KeyError)
                      | Some vols \<Rightarrow>
                          (args', Inr (map2 (\<lambda>r v. \<lparr>vr_node = dt_node r,
                                                    vr_inj_node = dt_inj_node r,
                                                    vr_volume = v\<rparr>) det_time vols))))"

section \<open>sim: the simulator, the file system and the two simulation drivers\<close>

text \<open>
  The water network, as far as \<^verbatim>\<open>waco.sim\<close> reads or writes it: the junction names and
  the options that \<^verbatim>\<open>_set_config\<close> and \<^verbatim>\<open>contamination\<close> set.
\<close>

record 'n network =
  junction_name_list :: "'n list"
  opt_duration :: int
  opt_hydraulic_timestep :: int
  opt_quality_timestep :: int
  opt_report_timestep :: int
  opt_demand_model :: string
  opt_headloss :: string
  opt_quality_parameter :: string
  opt_trace_node :: "'n option"

text \<open>
  The result of one simulator run, with the node tables already stacked: the (time, node)
  index in the simulator's order, and the quality and the demand at each index entry.
\<close>

record 'n sim_results =
  sr_index :: "(int \<times> 'n) list"
  sr_quality :: "int \<times> 'n \<Rightarrow> real"
  sr_demand :: "int \<times> 'n \<Rightarrow> real"

text \<open>
  The external simulator is a parameter: from the network as configured, the
  \<^verbatim>\<open>file_prefix\<close> keyword (None when the call has no such keyword) and the files
  present, it gives its results, or the exception it raises, and the files present
  afterwards. All runs of one call are taken to report on the same (time, node) index.
\<close>

type_synonym 'n simulator =
  "'n network \<Rightarrow> string option \<Rightarrow> string set \<Rightarrow> (error + 'n sim_results) \<times> string set"

text \<open>
  What the drivers do to the world outside: the files that exist, the paths whose removal
  the operating system refuses, the \<^verbatim>\<open>os.remove\<close> calls made so far, and the simulator
  runs made so far, each recorded by the trace node it ran with.
\<close>

record 'n world =
  w_files :: "string set"
  w_locked :: "string set"
  w_removals :: "string list"
  w_runs :: "'n option list"

text \<open>Lines 107-128.\<close>

definition set_config :: "'n network \<Rightarrow> int \<Rightarrow> int \<Rightarrow> 'n network" where
  "set_config wn duration timestep =
     wn\<lparr>opt_duration := duration,
        opt_hydraulic_timestep := timestep,
        opt_quality_timestep := timestep,
        opt_report_timestep := timestep,
        opt_demand_model := ''DDA'',
        opt_headloss := ''H-W''\<rparr>"

text \<open>
  \<^verbatim>\<open>os.remove(path)\<close>: raises ValueError on a path with a NUL byte; otherwise removes an
  existing file, and raises OSError when there is no such file or the operating system
  refuses.
\<close>

definition os_remove :: "string \<Rightarrow> 'n world \<Rightarrow> (error + unit) \<times> 'n world" where
  "os_remove path w =
     (let w' = w\<lparr>w_removals := w_removals w @ [path]\<rparr>
      in if CHR 0x00 \<in> set path then (Inl ValueError, w')
         else if path \<in> w_files w \<and> path \<notin> w_locked w
         then (Inr (), w'\<lparr>w_files := w_files w - {path}\<rparr>)
         else (Inl OSError, w'))"

text \<open>
  Lines 131-142: the loop over the four extensions; \<^verbatim>\<open>except OSError: continue\<close> goes on
  with the next extension, any other exception leaves the loop and the function.
\<close>

fun clean_tmp_loop :: "string \<Rightarrow> string list \<Rightarrow> 'n world \<Rightarrow> (error + unit) \<times> 'n world" where
  "clean_tmp_loop file_prefix [] w = (Inr (), w)"
| "clean_tmp_loop file_prefix (extension # rest) w =
     (case os_remove (file_prefix @ extension) w of
        (Inl e, w') \<Rightarrow>
          if e = OSError then clean_tmp_loop file_prefix rest w' else (Inl e, w')
      | (Inr u, w') \<Rightarrow> clean_tmp_loop file_prefix rest w')"

definition clean_tmp :: "string \<Rightarrow> 'n world \<Rightarrow> (error + unit) \<times> 'n world" where
  "clean_tmp file_prefix w =
     clean_tmp_loop file_prefix [''.inp'', ''.bin'', ''.hyd'', ''.rpt''] w"

text \<open>
  \<^verbatim>\<open>kwargs.get("file_prefix", "temp")\<close>, for a keyword that is a string when it is given.
\<close>

definition get_file_prefix :: "string option \<Rightarrow> string" where
  "get_file_prefix file_prefix = (case file_prefix of None \<Rightarrow> ''temp'' | Some p \<Rightarrow> p)"

text \<open>
  \<^verbatim>\<open>sim.run_sim(**kwargs)\<close>: one run of the simulator on the network as it is now. The
  run may raise; the drivers do not catch the exception.
\<close>

definition run_sim ::
  "'n simulator \<Rightarrow> 'n network \<Rightarrow> string option \<Rightarrow> 'n world
     \<Rightarrow> (error + 'n sim_results) \<times> 'n world" where
  "run_sim sim wn file_prefix w =
     (let (sim_results, files) = sim wn file_prefix (w_files w)
      in (sim_results, w\<lparr>w_files := files, w_runs := w_runs w @ [opt_trace_node wn]\<rparr>))"

text \<open>
  Lines 52-58: the loop over the injection nodes. Each pass sets the trace node, runs the
  simulator and appends the stacked quality table of the run.
\<close>

fun run_injections ::
  "'n simulator \<Rightarrow> string option \<Rightarrow> 'n network \<Rightarrow> 'n list \<Rightarrow> 'n world
     \<Rightarrow> (error + 'n sim_results list) \<times> 'n world" where
  "run_injections sim file_prefix wn [] w = (Inr [], w)"
| "run_injections sim file_prefix wn (node # nodes) w =
     (case run_sim sim (wn\<lparr>opt_trace_node := Some node\<rparr>) file_prefix w of
        (Inl e, w') \<Rightarrow> (Inl e, w')
      | (Inr sim_results, w') \<Rightarrow>
          (case run_injections sim file_prefix (wn\<lparr>opt_trace_node := Some node\<rparr>) nodes w' of
             (Inl e, w'') \<Rightarrow> (Inl e, w'')
           | (Inr trace, w'') \<Rightarrow> (Inr (sim_results # trace), w'')))"

text \<open>
  Lines 59-60: \<^verbatim>\<open>pd.DataFrame(trace).T.reset_index()\<close> has one row per (time, node) index
  entry and one column per run, and then gets the labels time, node and the injection
  nodes. The cell of a scenario column is the quality of the run of that injection node.
\<close>

definition stack_traces :: "'n list \<Rightarrow> 'n sim_results list \<Rightarrow> (int \<times> 'n) list \<Rightarrow> 'n trace_frame" where
  "stack_traces inj_nodes trace index =
     \<lparr>scenario_cols = inj_nodes,
      tr_rows = map (\<lambda>(t, n).
          \<lparr>tr_time = t, tr_node = n,
           tr_conc = (\<lambda>col. case find (\<lambda>(node, r). node = col) (zip inj_nodes trace) of
                               None \<Rightarrow> 0
                             | Some (node, r) \<Rightarrow> sr_quality r (t, n))\<rparr>) index\<rparr>"

text \<open>
  Line 51: \<^verbatim>\<open>wn.junction_name_list if inj_nodes is None else inj_nodes\<close>.
\<close>

definition injection_nodes :: "'n network \<Rightarrow> 'n list option \<Rightarrow> 'n list" where
  "injection_nodes wn inj_nodes =
     (case inj_nodes of None \<Rightarrow> junction_name_list wn | Some nodes \<Rightarrow> nodes)"

text \<open>The column labels of a trace table, in order.\<close>

datatype 'n label = Time_label | Node_label | Scenario_label 'n

definition frame_columns :: "'n trace_frame \<Rightarrow> 'n label list" where
  "frame_columns trace = Time_label # Node_label # map Scenario_label (scenario_cols trace)"

text \<open>
  Lines 47-62. The network is a deep copy, so the caller's network is untouched. An
  exception of a run leaves the function at once. With no injection node there is no run;
  the empty frame has a single column after \<^verbatim>\<open>reset_index\<close>, and giving it the two
  labels time and node raises ValueError in line 60, before the cleanup of line 61.
\<close>

definition contamination ::
  "'n simulator \<Rightarrow> 'n network \<Rightarrow> 'n list option \<Rightarrow> int \<Rightarrow> int \<Rightarrow> string option \<Rightarrow> 'n world
     \<Rightarrow> (error + 'n trace_frame) \<times> 'n world" where
  "contamination sim wn inj_nodes duration timestep file_prefix w =
     (let wn1 = (set_config wn duration timestep)\<lparr>opt_quality_parameter := ''TRACE''\<rparr>;
          inj = injection_nodes wn1 inj_nodes
      in case run_injections sim file_prefix wn1 inj w of
           (Inl e, w1) \<Rightarrow> (Inl e, w1)
         | (Inr [], w1) \<Rightarrow> (Inl ValueError, w1)
         | (Inr (first_run # other_runs), w1) \<Rightarrow>
             (case clean_tmp (get_file_prefix file_prefix) w1 of
                (Inl e, w2) \<Rightarrow> (Inl e, w2)
              | (Inr u, w2) \<Rightarrow>
                  (Inr (stack_traces inj (first_run # other_runs) (sr_index first_run)), w2)))"

text \<open>
  Lines 98-104: one run, the cleanup, then the stacked demand table. An exception of the
  run leaves the function before the cleanup.
\<close>

definition water_demand ::
  "'n simulator \<Rightarrow> 'n network \<Rightarrow> int \<Rightarrow> int \<Rightarrow> string option \<Rightarrow> 'n world
     \<Rightarrow> (error + 'n demand_row list) \<times> 'n world" where
  "water_demand sim wn duration timestep file_prefix w =
     (let wn1 = set_config wn duration timestep
      in case run_sim sim wn1 file_prefix w of
           (Inl e, w1) \<Rightarrow> (Inl e, w1)
         | (Inr sim_results, w1) \<Rightarrow>
             (case clean_tmp (get_file_prefix file_prefix) w1 of
                (Inl e, w2) \<Rightarrow> (Inl e, w2)
              | (Inr u, w2) \<Rightarrow>
                  (Inr (map (\<lambda>(t, n). \<lparr>dm_time = t, dm_node = n,
                                       dm_demand = sr_demand sim_results (t, n)\<rparr>)
                         (sr_index sim_results)), w2)))"

section \<open>The claims as the specification words them\<close>

text \<open>
  The demand that the demand table lists for a (time, node) pair (0 when it lists none),
  which is what the specification multiplies a trace percentage with.
\<close>

definition demand_of :: "'n demand_row list \<Rightarrow> int \<Rightarrow> 'n \<Rightarrow> real" where
  "demand_of demand t n =
     (case find (\<lambda>d. dm_time d = t \<and> dm_node d = n) demand of
        None \<Rightarrow> 0
      | Some d \<Rightarrow> dm_demand d)"

text \<open>
  The volume as the specification describes it: the sum, over the timesteps strictly before
  the detection time, of the trace percentage of node \<open>n\<close> times 0.01 times the demand of
  node \<open>n\<close> at that timestep.
\<close>

definition spec_volume_before_detection ::
  "'n trace_frame \<Rightarrow> 'n demand_row list \<Rightarrow> 'n \<Rightarrow> 'n \<Rightarrow> real \<Rightarrow> real" where
  "spec_volume_before_detection trace demand n j t_det =
     sum_list (map (\<lambda>r. tr_conc r j * 0.01 * demand_of demand (tr_time r) n)
       (filter (\<lambda>r. tr_node r = n \<and> real_of_int (tr_time r) < t_det) (tr_rows trace)))"

text \<open>
  The per-timestep volume as the specification describes it: every row of the trace at that
  time multiplied by the demand of the same (time, node) pair.
\<close>

definition spec_step_volume ::
  "'n trace_frame \<Rightarrow> 'n demand_row list \<Rightarrow> int \<Rightarrow> 'n \<Rightarrow> real" where
  "spec_step_volume trace demand t j =
     sum_list (map (\<lambda>r. tr_conc r j * (0.01 * demand_of demand (tr_time r) (tr_node r)))
       (filter (\<lambda>r. tr_time r = t) (tr_rows trace)))"

section \<open>Example inputs\<close>

text \<open>
  A two-node network observed at 0 s and 3600 s, with one injection node (node 1). Node 1
  is contaminated from the start; node 2 reaches exactly the threshold 1 at 0 s and 50
  percent at 3600 s.
\<close>

definition ex_trace :: "nat trace_frame" where
  "ex_trace = \<lparr>scenario_cols = [1], tr_rows =
     [\<lparr>tr_time = 0, tr_node = 1, tr_conc = (\<lambda>c. 100)\<rparr>,
      \<lparr>tr_time = 0, tr_node = 2, tr_conc = (\<lambda>c. 1)\<rparr>,
      \<lparr>tr_time = 3600, tr_node = 1, tr_conc = (\<lambda>c. 100)\<rparr>,
      \<lparr>tr_time = 3600, tr_node = 2, tr_conc = (\<lambda>c. 50)\<rparr>]\<rparr>"

text \<open>The same network observed at a single time.\<close>

definition ex_trace_one_time :: "nat trace_frame" where
  "ex_trace_one_time = \<lparr>scenario_cols = [1], tr_rows =
     [\<lparr>tr_time = 0, tr_node = 1, tr_conc = (\<lambda>c. 100)\<rparr>,
      \<lparr>tr_time = 0, tr_node = 2, tr_conc = (\<lambda>c. 1)\<rparr>]\<rparr>"

text \<open>A node observed at two times that are \<open>2 ^ 63\<close> seconds apart.\<close>

definition ex_trace_far :: "nat trace_frame" where
  "ex_trace_far = \<lparr>scenario_cols = [1], tr_rows =
     [\<lparr>tr_time = - (2 ^ 62), tr_node = 1, tr_conc = (\<lambda>c. 0)\<rparr>,
      \<lparr>tr_time = 2 ^ 62, tr_node = 1, tr_conc = (\<lambda>c. 0)\<rparr>]\<rparr>"

text \<open>
  The detection times of the example at threshold 1 (node 2 detects at 3600 s: its value 1
  at 0 s equals the threshold), and at threshold 60 (node 2 never detects).
\<close>

definition ex_det_time :: "nat det_row list" where
  "ex_det_time = [\<lparr>dt_node = 1, dt_inj_node = 1, dt_time = Finite 0\<rparr>,
                  \<lparr>dt_node = 2, dt_inj_node = 1, dt_time = Finite 3600\<rparr>]"

definition ex_det_time_60 :: "nat det_row list" where
  "ex_det_time_60 = [\<lparr>dt_node = 1, dt_inj_node = 1, dt_time = Finite 0\<rparr>,
                     \<lparr>dt_node = 2, dt_inj_node = 1, dt_time = Finite 7200\<rparr>]"

text \<open>
  The demand of the example, its rows in the order of the trace, and the same table with
  the two rows of each timestep swapped.
\<close>

definition ex_demand :: "nat demand_row list" where
  "ex_demand =
     [\<lparr>dm_time = 0, dm_node = 1, dm_demand = 2\<rparr>,
      \<lparr>dm_time = 0, dm_node = 2, dm_demand = 4\<rparr>,
      \<lparr>dm_time = 3600, dm_node = 1, dm_demand = 2\<rparr>,
      \<lparr>dm_time = 3600, dm_node = 2, dm_demand = 4\<rparr>]"

definition ex_demand_swapped :: "nat demand_row list" where
  "ex_demand_swapped =
     [\<lparr>dm_time = 0, dm_node = 2, dm_demand = 4\<rparr>,
      \<lparr>dm_time = 0, dm_node = 1, dm_demand = 2\<rparr>,
      \<lparr>dm_time = 3600, dm_node = 2, dm_demand = 4\<rparr>,
      \<lparr>dm_time = 3600, dm_node = 1, dm_demand = 2\<rparr>]"

text \<open>
  Calls of \<open>contaminated_volume\<close> on the example and their results. The node identifiers
  of the example are integers.
\<close>

definition ex_args :: "nat cv_args" where
  "ex_args = \<lparr>arg_trace = ex_trace, arg_demand = ex_demand, arg_det_time = ex_det_time_60,
     arg_int_ids = True\<rparr>"

text \<open>A detection time far beyond the horizon, as a sentinel given by hand may be.\<close>

definition ex_args_late :: "nat cv_args" where
  "ex_args_late = \<lparr>arg_trace = ex_trace, arg_demand = ex_demand,
     arg_det_time = [\<lparr>dt_node = 2, dt_inj_node = 1, dt_time = Finite (10 ^ 30)\<rparr>],
     arg_int_ids = True\<rparr>"

text \<open>An infinite detection time.\<close>

definition ex_args_inf :: "nat cv_args" where
  "ex_args_inf = \<lparr>arg_trace = ex_trace, arg_demand = ex_demand,
     arg_det_time = [\<lparr>dt_node = 2, dt_inj_node = 1, dt_time = PosInf\<rparr>],
     arg_int_ids = True\<rparr>"

text \<open>Detection times with a fraction, and the table that the cast of line 88 leaves.\<close>

definition ex_args_fraction :: "nat cv_args" where
  "ex_args_fraction = \<lparr>arg_trace = ex_trace, arg_demand = ex_demand,
     arg_det_time = [\<lparr>dt_node = 1, dt_inj_node = 1, dt_time = Finite 3600.9\<rparr>,
                     \<lparr>dt_node = 2, dt_inj_node = 1, dt_time = Finite (- 0.5)\<rparr>,
                     \<lparr>dt_node = 2, dt_inj_node = 2, dt_time = Finite (10 ^ 30)\<rparr>],
     arg_int_ids = True\<rparr>"

definition ex_det_time_cast :: "nat det_row list" where
  "ex_det_time_cast =
     [\<lparr>dt_node = 1, dt_inj_node = 1, dt_time = Finite 3600\<rparr>,
      \<lparr>dt_node = 2, dt_inj_node = 1, dt_time = Finite 0\<rparr>,
      \<lparr>dt_node = 2, dt_inj_node = 2, dt_time = Finite (- (2 ^ 63))\<rparr>]"

definition ex_volume :: "nat vol_row list" where
  "ex_volume = [\<lparr>vr_node = 1, vr_inj_node = 1, vr_volume = 2.04\<rparr>,
                   \<lparr>vr_node = 2, vr_inj_node = 1, vr_volume = 4\<rparr>]"

definition ex_args_1 :: "nat cv_args" where
  "ex_args_1 = \<lparr>arg_trace = ex_trace, arg_demand = ex_demand, arg_det_time = ex_det_time,
     arg_int_ids = True\<rparr>"

definition ex_rows_swapped :: "nat trace_row list" where
  "ex_rows_swapped =
     [\<lparr>tr_time = 0, tr_node = 2, tr_conc = (\<lambda>c. 1)\<rparr>,
      \<lparr>tr_time = 0, tr_node = 1, tr_conc = (\<lambda>c. 100)\<rparr>,
      \<lparr>tr_time = 3600, tr_node = 2, tr_conc = (\<lambda>c. 50)\<rparr>,
      \<lparr>tr_time = 3600, tr_node = 1, tr_conc = (\<lambda>c. 100)\<rparr>]"

definition ex_volume_swapped :: "nat vol_row list" where
  "ex_volume_swapped = [\<lparr>vr_node = 1, vr_inj_node = 1, vr_volume = 4.02\<rparr>,
                        \<lparr>vr_node = 2, vr_inj_node = 1, vr_volume = 5\<rparr>]"

text \<open>
  A simulator for the examples: it reports the two nodes at 0 s and 3600 s and leaves its
  four temporary files behind; and one that writes its input file and raises. The network
  has the junctions 1 and 2. In the first world, a file \<^verbatim>\<open>temp.hyd\<close> that the operating
  system refuses to remove is already present; in the second, a file \<^verbatim>\<open>temp.inp\<close> that
  can be removed.
\<close>

definition ex_sim :: "nat simulator" where
  "ex_sim wn file_prefix files =
     (Inr \<lparr>sr_index = [(0, 1), (0, 2), (3600, 1), (3600, 2)],
           sr_quality = (\<lambda>k. if Some (snd k) = opt_trace_node wn then 100 else 50),
           sr_demand = (\<lambda>k. 2)\<rparr>,
      files \<union> {get_file_prefix file_prefix @ ''.inp'', get_file_prefix file_prefix @ ''.bin'',
               get_file_prefix file_prefix @ ''.hyd'', get_file_prefix file_prefix @ ''.rpt''})"

definition ex_sim_raising :: "nat simulator" where
  "ex_sim_raising wn file_prefix files =
     (Inl EpanetException, files \<union> {get_file_prefix file_prefix @ ''.inp''})"

definition ex_wn :: "nat network" where
  "ex_wn = \<lparr>junction_name_list = [1, 2], opt_duration = 0, opt_hydraulic_timestep = 0,
     opt_quality_timestep = 0, opt_report_timestep = 0, opt_demand_model = ''PDA'',
     opt_headloss = ''D-W'', opt_quality_parameter = ''NONE'', opt_trace_node = None\<rparr>"

definition ex_world :: "nat world" where
  "ex_world = \<lparr>w_files = {''temp.hyd'', ''net.inp''}, w_locked = {''temp.hyd''},
     w_removals = [], w_runs = []\<rparr>"

definition ex_world_stale :: "nat world" where
  "ex_world_stale = \<lparr>w_files = {''temp.inp''}, w_locked = {}, w_removals = [], w_runs = []\<rparr>"

section \<open>Properties of detection\_time\<close>

lemma length_distinct_times:
  "length (remdups (map tr_time rs)) = card (tr_time ` set rs)"
  by (simp add: length_remdups_card_conv)

lemma default_non_detection_value_Inl:
  "card (tr_time ` set (tr_rows trace)) < 2 \<Longrightarrow>
     default_non_detection_value trace = Inl IndexError"
  by (simp add: default_non_detection_value_def Let_def length_distinct_times)

lemma default_non_detection_value_Inr:
  "2 \<le> card (tr_time ` set (tr_rows trace)) \<Longrightarrow>
     \<exists>v. default_non_detection_value trace = Inr v"
  by (simp add: default_non_detection_value_def Let_def length_distinct_times)

text \<open>
  C10. With the default \<open>non_detection_value\<close> (None) the call is defined only on a trace
  with at least two distinct times: with fewer, the sentinel computation raises IndexError
  and no table is produced. An explicit value brings no requirement on the times: the call
  then returns a table for every trace that has a scenario column.
\<close>

theorem detection_time_default_needs_two_times:
  "(card (tr_time ` set (tr_rows trace)) < 2 \<longrightarrow>
      detection_time trace sensibility None = Inl IndexError)
   \<and> (2 \<le> card (tr_time ` set (tr_rows trace)) \<and> scenario_cols trace \<noteq> [] \<longrightarrow>
      (\<exists>dt. detection_time trace sensibility None = Inr dt))
   \<and> (scenario_cols trace \<noteq> [] \<longrightarrow>
      (\<exists>dt. detection_time trace sensibility (Some v) = Inr dt))"
proof (intro conjI impI)
  assume "card (tr_time ` set (tr_rows trace)) < 2"
  then show "detection_time trace sensibility None = Inl IndexError"
    by (simp add: detection_time_def default_non_detection_value_Inl)
next
  assume a: "2 \<le> card (tr_time ` set (tr_rows trace)) \<and> scenario_cols trace \<noteq> []"
  then obtain w where "default_non_detection_value trace = Inr w"
    using default_non_detection_value_Inr by blast
  with a show "\<exists>dt. detection_time trace sensibility None = Inr dt"
    by (simp add: detection_time_def)
next
  assume "scenario_cols trace \<noteq> []"
  then show "\<exists>dt. detection_time trace sensibility (Some v) = Inr dt"
    by (simp add: detection_time_def)
qed

theorem detection_time_default_needs_two_times_witness:
  "detection_time ex_trace_one_time 1 None = Inl IndexError
   \<and> (\<exists>dt. detection_time ex_trace 1 None = Inr dt)
   \<and> (\<exists>dt. detection_time ex_trace_one_time 1 (Some 7200) = Inr dt)"
proof -
  have one: "card (tr_time ` set (tr_rows ex_trace_one_time)) < 2"
    by (simp add: ex_trace_one_time_def)
  have two: "2 \<le> card (tr_time ` set (tr_rows ex_trace)) \<and> scenario_cols ex_trace \<noteq> []"
    by (simp add: ex_trace_def)
  have col: "scenario_cols ex_trace_one_time \<noteq> []"
    by (simp add: ex_trace_one_time_def)
  show ?thesis
    using detection_time_default_needs_two_times [of ex_trace_one_time 1 7200]
      detection_time_default_needs_two_times [of ex_trace 1 7200] one two col
    by blast
qed

lemma filter_upt_first:
  assumes "i < N" "R i" "\<forall>k<i. \<not> R k"
  shows "filter R [0..<N] = i # filter R [Suc i..<N]"
proof -
  have "[0..<N] = [0..<i] @ i # [Suc i..<N]"
  proof -
    have "[0..<i + (N - i)] = [0..<i] @ [i..<i + (N - i)]"
      by (rule upt_add_eq_append) simp
    then show ?thesis using assms(1) by (simp add: upt_conv_Cons)
  qed
  moreover have "filter R [0..<i] = []"
    using assms(3) by (simp add: filter_empty_conv)
  ultimately show ?thesis using assms(2) by simp
qed

lemma first_T_greater_than_Some:
  assumes "i < length (tr_rows trace)"
    and "tr_node (tr_rows trace ! i) = n"
    and "sensibility < tr_conc (tr_rows trace ! i) j"
    and "\<forall>k<i. tr_node (tr_rows trace ! k) = n \<longrightarrow> tr_conc (tr_rows trace ! k) j \<le> sensibility"
  shows "first_T_greater_than trace sensibility (group_series trace n j) = Some (tr_time (tr_rows trace ! i))"
proof -
  let ?R = "\<lambda>k. tr_node (tr_rows trace ! k) = n \<and> sensibility < tr_conc (tr_rows trace ! k) j"
  have "filter (\<lambda>(k, v). sensibility < v) (group_series trace n j)
        = map (\<lambda>k. (k, tr_conc (tr_rows trace ! k) j)) (filter ?R [0..<length (tr_rows trace)])"
    by (simp add: group_series_def group_index_def filter_map o_def conj_commute)
  also have "filter ?R [0..<length (tr_rows trace)] = i # filter ?R [Suc i..<length (tr_rows trace)]"
    using assms by (intro filter_upt_first) (auto simp: not_less)
  finally show ?thesis
    by (simp add: first_T_greater_than_def)
qed

lemma first_T_greater_than_None:
  assumes "\<forall>r\<in>set (tr_rows trace). tr_node r = n \<longrightarrow> tr_conc r j \<le> sensibility"
  shows "first_T_greater_than trace sensibility (group_series trace n j) = None"
proof -
  have "filter (\<lambda>(k, v). sensibility < v) (group_series trace n j) = []"
    using assms by (auto simp: group_series_def group_index_def filter_empty_conv not_less)
  then show ?thesis by (simp add: first_T_greater_than_def)
qed

lemma ex_detection_time_1: "detection_time ex_trace 1 None = Inr ex_det_time"
  by (simp add: detection_time_def default_non_detection_value_def group_series_def
      group_index_def first_T_greater_than_def ex_trace_def ex_det_time_def Let_def
      int64_wrap_def)

lemma ex_detection_time_60: "detection_time ex_trace 60 None = Inr ex_det_time_60"
  by (simp add: detection_time_def default_non_detection_value_def group_series_def
      group_index_def first_T_greater_than_def ex_trace_def ex_det_time_60_def Let_def
      int64_wrap_def)

lemma detection_time_InrD:
  assumes "detection_time trace s ndv = Inr dt"
  shows "\<exists>v. (case ndv of None \<Rightarrow> default_non_detection_value trace | Some w \<Rightarrow> Inr w) = Inr v
           \<and> scenario_cols trace \<noteq> []
           \<and> dt = concat (map (\<lambda>n. map (\<lambda>col.
                 \<lparr>dt_node = n, dt_inj_node = col,
                  dt_time = (case first_T_greater_than trace s (group_series trace n col) of
                               None \<Rightarrow> Finite v | Some t \<Rightarrow> Finite (real_of_int t))\<rparr>)
                 (scenario_cols trace))
               (sort (remdups (map tr_node (tr_rows trace)))))"
  using assms unfolding detection_time_def
  by (auto split: sum.splits if_splits)

lemma detection_time_keys:
  assumes "detection_time trace s ndv = Inr dt"
  shows "map (\<lambda>r. (dt_node r, dt_inj_node r)) dt
         = List.product (sort (remdups (map tr_node (tr_rows trace)))) (scenario_cols trace)"
proof -
  have "map (\<lambda>r. (dt_node r, dt_inj_node r)) (concat (map (\<lambda>n. map (\<lambda>col.
                 \<lparr>dt_node = n, dt_inj_node = col, dt_time = f n col\<rparr>) cs) ns))
        = List.product ns cs" for f :: "'a \<Rightarrow> 'a \<Rightarrow> float64" and cs ns
    by (induction ns) (simp_all add: o_def)
  with detection_time_InrD [OF assms] show ?thesis by auto
qed

lemma detection_time_row:
  assumes "detection_time trace s ndv = Inr dt" and "r \<in> set dt"
  shows "\<exists>v. (case ndv of None \<Rightarrow> default_non_detection_value trace | Some w \<Rightarrow> Inr w) = Inr v
     \<and> dt_node r \<in> tr_node ` set (tr_rows trace) \<and> dt_inj_node r \<in> set (scenario_cols trace)
     \<and> dt_time r = (case first_T_greater_than trace s (group_series trace (dt_node r) (dt_inj_node r)) of
                               None \<Rightarrow> Finite v | Some t \<Rightarrow> Finite (real_of_int t))"
  using detection_time_InrD [OF assms(1)] assms(2) by auto

lemma detection_time_has_row:
  assumes "detection_time trace s ndv = Inr dt"
    and "n \<in> tr_node ` set (tr_rows trace)" and "j \<in> set (scenario_cols trace)"
  shows "\<exists>r\<in>set dt. dt_node r = n \<and> dt_inj_node r = j"
proof -
  have "(n, j) \<in> set (map (\<lambda>r. (dt_node r, dt_inj_node r)) dt)"
    using assms by (simp add: detection_time_keys)
  then show ?thesis by auto
qed

text \<open>
  C1. When the call returns a table: for a node \<open>n\<close> and a scenario column \<open>j\<close>, if row
  \<open>i\<close> is the first row of node \<open>n\<close>, in row order, whose value in column \<open>j\<close> is
  strictly greater than the threshold (earlier rows of the node, among them rows whose value
  equals the threshold, do not count), the table has a row for \<open>(n, j)\<close> and every row
  for \<open>(n, j)\<close> carries the time of row \<open>i\<close>.
\<close>

theorem detection_time_first_exceedance:
  assumes "detection_time trace sensibility non_detection_value = Inr det_time"
    and "j \<in> set (scenario_cols trace)"
    and "i < length (tr_rows trace)"
    and "tr_node (tr_rows trace ! i) = n"
    and "sensibility < tr_conc (tr_rows trace ! i) j"
    and "\<forall>k<i. tr_node (tr_rows trace ! k) = n \<longrightarrow>
               tr_conc (tr_rows trace ! k) j \<le> sensibility"
  shows "(\<exists>r\<in>set det_time. dt_node r = n \<and> dt_inj_node r = j)
       \<and> (\<forall>r\<in>set det_time. dt_node r = n \<and> dt_inj_node r = j \<longrightarrow>
             dt_time r = Finite (real_of_int (tr_time (tr_rows trace ! i))))"
proof (intro conjI ballI impI)
  have "n \<in> tr_node ` set (tr_rows trace)"
    using assms(3,4) by (metis imageI nth_mem)
  then show "\<exists>r\<in>set det_time. dt_node r = n \<and> dt_inj_node r = j"
    using assms(2) by (intro detection_time_has_row [OF assms(1)])
next
  fix r assume r: "r \<in> set det_time" "dt_node r = n \<and> dt_inj_node r = j"
  have "first_T_greater_than trace sensibility (group_series trace n j)
          = Some (tr_time (tr_rows trace ! i))"
    using assms(3-6) by (rule first_T_greater_than_Some)
  with detection_time_row [OF assms(1) r(1)] r(2)
  show "dt_time r = Finite (real_of_int (tr_time (tr_rows trace ! i)))" by auto
qed

theorem detection_time_first_exceedance_witness:
  "detection_time ex_trace 1 None = Inr ex_det_time
   \<and> tr_conc (tr_rows ex_trace ! 1) 1 = 1
   \<and> dt_node (ex_det_time ! 1) = 2 \<and> dt_inj_node (ex_det_time ! 1) = 1
   \<and> dt_time (ex_det_time ! 1) = Finite 3600"
proof -
  note ev = ex_detection_time_1
  have before: "\<forall>k<3. tr_node (tr_rows ex_trace ! k) = (2::nat) \<longrightarrow>
                  tr_conc (tr_rows ex_trace ! k) 1 \<le> 1"
    by (simp add: ex_trace_def less_Suc_eq numeral_3_eq_3)
  have "\<forall>r\<in>set ex_det_time. dt_node r = 2 \<and> dt_inj_node r = 1 \<longrightarrow>
          dt_time r = Finite (real_of_int (tr_time (tr_rows ex_trace ! 3)))"
    using detection_time_first_exceedance [OF ev, of 1 3 2] before
    by (simp add: ex_trace_def)
  then show ?thesis using ev
    by (simp add: ex_det_time_def ex_trace_def)
qed

lemma int64_wrap_id: "is_int64 x \<Longrightarrow> int64_wrap x = x"
  by (simp add: is_int64_def int64_wrap_def)

text \<open>
  C3. When the call returns a table: for a node \<open>n\<close> of the trace and a scenario column
  \<open>j\<close> such that no row of \<open>n\<close> exceeds the threshold in column \<open>j\<close>, the row for
  \<open>(n, j)\<close> carries the sentinel: the value passed, or, when None was passed, the value
  of \<open>times[-1] + (times[-1] - times[-2])\<close> over the sorted distinct times of the trace,
  computed in int64; this is the last time plus the last gap whenever the gap and the sum
  are int64 values.
\<close>

theorem detection_time_never_detected:
  assumes "detection_time trace sensibility non_detection_value = Inr det_time"
    and "n \<in> tr_node ` set (tr_rows trace)"
    and "j \<in> set (scenario_cols trace)"
    and "\<forall>r\<in>set (tr_rows trace). tr_node r = n \<longrightarrow> tr_conc r j \<le> sensibility"
  shows "(\<exists>r\<in>set det_time. dt_node r = n \<and> dt_inj_node r = j)
       \<and> (\<forall>r\<in>set det_time. dt_node r = n \<and> dt_inj_node r = j \<longrightarrow>
            (case non_detection_value of
               Some v \<Rightarrow> dt_time r = Finite v
             | None \<Rightarrow>
                 (let times = sort (remdups (map tr_time (tr_rows trace)));
                      gap = last times - times ! (length times - 2)
                  in 2 \<le> length times
                     \<and> dt_time r
                         = Finite (real_of_int (int64_wrap (last times + int64_wrap gap)))
                     \<and> (is_int64 gap \<and> is_int64 (last times + gap) \<longrightarrow>
                          dt_time r = Finite (real_of_int (last times + gap))))))"
proof (intro conjI ballI impI)
  show "\<exists>r\<in>set det_time. dt_node r = n \<and> dt_inj_node r = j"
    using assms(2,3) by (intro detection_time_has_row [OF assms(1)])
next
  fix r assume r: "r \<in> set det_time" "dt_node r = n \<and> dt_inj_node r = j"
  have none: "first_T_greater_than trace sensibility (group_series trace n j) = None"
    using assms(4) by (rule first_T_greater_than_None)
  from detection_time_row [OF assms(1) r(1)] r(2) none
  obtain v where v: "(case non_detection_value of
                        None \<Rightarrow> default_non_detection_value trace
                      | Some w \<Rightarrow> Inr w) = Inr v"
    and t: "dt_time r = Finite v"
    by auto
  show "case non_detection_value of
          Some v \<Rightarrow> dt_time r = Finite v
        | None \<Rightarrow>
            (let times = sort (remdups (map tr_time (tr_rows trace)));
                 gap = last times - times ! (length times - 2)
             in 2 \<le> length times
                \<and> dt_time r
                    = Finite (real_of_int (int64_wrap (last times + int64_wrap gap)))
                \<and> (is_int64 gap \<and> is_int64 (last times + gap) \<longrightarrow>
                     dt_time r = Finite (real_of_int (last times + gap))))"
  proof (cases non_detection_value)
    case None
    with v have "default_non_detection_value trace = Inr v" by simp
    then show ?thesis using None t
      by (auto simp: default_non_detection_value_def Let_def int64_wrap_id split: if_splits)
  next
    case (Some w)
    with v t show ?thesis by simp
  qed
qed

lemma ex_detection_time_far:
  "detection_time ex_trace_far 1 None
     = Inr [\<lparr>dt_node = 1, dt_inj_node = 1, dt_time = Finite (- (2 ^ 62))\<rparr>]"
  by (simp add: detection_time_def default_non_detection_value_def group_series_def
      group_index_def first_T_greater_than_def ex_trace_far_def Let_def int64_wrap_def)

theorem detection_time_never_detected_witness:
  "detection_time ex_trace 60 None = Inr ex_det_time_60
   \<and> sort (remdups (map tr_time (tr_rows ex_trace))) = [0, 3600]
   \<and> dt_node (ex_det_time_60 ! 1) = 2 \<and> dt_inj_node (ex_det_time_60 ! 1) = 1
   \<and> dt_time (ex_det_time_60 ! 1) = Finite (3600 + (3600 - 0))
   \<and> sort (remdups (map tr_time (tr_rows ex_trace_far))) = [- (2 ^ 62), 2 ^ 62]
   \<and> detection_time ex_trace_far 1 None
       = Inr [\<lparr>dt_node = 1, dt_inj_node = 1,
               dt_time = Finite (real_of_int (int64_wrap (2 ^ 62 + int64_wrap (2 ^ 62 - - (2 ^ 62)))))\<rparr>]
   \<and> int64_wrap (2 ^ 62 + int64_wrap (2 ^ 62 - - (2 ^ 62))) = - (2 ^ 62)"
proof -
  note ev = ex_detection_time_60
  have n: "(2::nat) \<in> tr_node ` set (tr_rows ex_trace)"
    and j: "(1::nat) \<in> set (scenario_cols ex_trace)"
    and never: "\<forall>r\<in>set (tr_rows ex_trace). tr_node r = 2 \<longrightarrow> tr_conc r 1 \<le> 60"
    by (simp_all add: ex_trace_def)
  have ts: "sort (remdups (map tr_time (tr_rows ex_trace))) = [0, 3600]"
    by (simp add: ex_trace_def)
  have fits: "is_int64 (3600 - 0) \<and> is_int64 (3600 + (3600 - 0))"
    by (simp add: is_int64_def)
  have "\<forall>r\<in>set ex_det_time_60. dt_node r = 2 \<and> dt_inj_node r = 1 \<longrightarrow>
          dt_time r = Finite 7200"
    using detection_time_never_detected [OF ev n j never] fits
    by (simp add: ts Let_def int64_wrap_def)
  then have near: "dt_time (ex_det_time_60 ! 1) = Finite (3600 + (3600 - 0))"
    by (simp add: ex_det_time_60_def)
  have far: "sort (remdups (map tr_time (tr_rows ex_trace_far))) = [- (2 ^ 62), 2 ^ 62]"
    by (simp add: ex_trace_far_def)
  have n': "(1::nat) \<in> tr_node ` set (tr_rows ex_trace_far)"
    and j': "(1::nat) \<in> set (scenario_cols ex_trace_far)"
    and never': "\<forall>r\<in>set (tr_rows ex_trace_far). tr_node r = 1 \<longrightarrow> tr_conc r 1 \<le> 1"
    by (simp_all add: ex_trace_far_def)
  have "\<forall>r\<in>set [\<lparr>dt_node = 1::nat, dt_inj_node = 1::nat, dt_time = Finite (- (2 ^ 62))\<rparr>].
          dt_node r = 1 \<and> dt_inj_node r = 1 \<longrightarrow>
          dt_time r = Finite (real_of_int (int64_wrap (2 ^ 62 + int64_wrap (2 ^ 62 - - (2 ^ 62)))))"
    using detection_time_never_detected [OF ex_detection_time_far n' j' never']
    by (simp only: far Let_def option.case last.simps list.size nth_Cons_0 list.simps)
       (simp add: int64_wrap_def)
  then have wrapped: "int64_wrap (2 ^ 62 + int64_wrap (2 ^ 62 - - (2 ^ 62))) = - (2 ^ 62)"
    by (simp add: int64_wrap_def)
  show ?thesis
    using ev ts near far ex_detection_time_far wrapped
    by (simp add: ex_det_time_60_def)
qed

text \<open>
  C7. When the call returns a table (columns node, inj\_node, time), it has exactly one row
  for every pair of a node of the trace and a scenario column, every row is such a pair,
  and the number of rows is the number of distinct nodes times the number of scenario
  columns: no pair is dropped, detected or not.
\<close>

theorem detection_time_one_row_per_pair:
  assumes "detection_time trace sensibility non_detection_value = Inr det_time"
    and "distinct (scenario_cols trace)"
  shows "(\<forall>n\<in>tr_node ` set (tr_rows trace). \<forall>j\<in>set (scenario_cols trace).
            length (filter (\<lambda>r. dt_node r = n \<and> dt_inj_node r = j) det_time) = 1)
       \<and> (\<forall>r\<in>set det_time. dt_node r \<in> tr_node ` set (tr_rows trace)
                            \<and> dt_inj_node r \<in> set (scenario_cols trace))
       \<and> length det_time
           = card (tr_node ` set (tr_rows trace)) * length (scenario_cols trace)"
proof -
  let ?key = "\<lambda>r. (dt_node r, dt_inj_node r)"
  let ?ns = "sort (remdups (map tr_node (tr_rows trace)))"
  have keys: "map ?key det_time = List.product ?ns (scenario_cols trace)"
    using assms(1) by (rule detection_time_keys)
  have dist: "distinct (map ?key det_time)"
    unfolding keys using assms(2) by (intro distinct_product) simp_all
  have one: "length (filter (\<lambda>r. dt_node r = n \<and> dt_inj_node r = j) det_time) = 1"
    if n: "n \<in> tr_node ` set (tr_rows trace)" and j: "j \<in> set (scenario_cols trace)"
    for n j
  proof -
    have mem: "(n, j) \<in> set (map ?key det_time)"
      unfolding keys using n j by simp
    have "length (filter (\<lambda>r. dt_node r = n \<and> dt_inj_node r = j) det_time)
          = length (filter (\<lambda>k. k = (n, j)) (map ?key det_time))"
      by (simp add: filter_map o_def)
    also have "\<dots> = card ({k. k = (n, j)} \<inter> set (map ?key det_time))"
      using dist by (rule distinct_length_filter)
    also have "{k. k = (n, j)} \<inter> set (map ?key det_time) = {(n, j)}"
      using mem by auto
    finally show ?thesis by simp
  qed
  have rows: "dt_node r \<in> tr_node ` set (tr_rows trace)
              \<and> dt_inj_node r \<in> set (scenario_cols trace)"
    if "r \<in> set det_time" for r
    using detection_time_row [OF assms(1) that] by blast
  have "length det_time = length (map ?key det_time)" by simp
  also have "\<dots> = length ?ns * length (scenario_cols trace)"
    unfolding keys by (rule length_product)
  also have "length ?ns = card (tr_node ` set (tr_rows trace))"
    by (simp add: length_remdups_card_conv)
  finally have len: "length det_time
     = card (tr_node ` set (tr_rows trace)) * length (scenario_cols trace)" .
  from one rows len show ?thesis by blast
qed

theorem detection_time_one_row_per_pair_witness:
  "detection_time ex_trace 60 None = Inr ex_det_time_60
   \<and> length (filter (\<lambda>r. dt_node r = 2 \<and> dt_inj_node r = 1) ex_det_time_60) = 1
   \<and> length ex_det_time_60 = 2"
proof -
  note ev = ex_detection_time_60
  have d: "distinct (scenario_cols ex_trace)"
    by (simp add: ex_trace_def)
  have c: "card (tr_node ` set (tr_rows ex_trace)) = 2"
    by (simp add: ex_trace_def card_insert_if)
  have n: "(2::nat) \<in> tr_node ` set (tr_rows ex_trace)"
    and j: "(1::nat) \<in> set (scenario_cols ex_trace)"
    by (simp_all add: ex_trace_def)
  from detection_time_one_row_per_pair [OF ev d] n j
  have "length (filter (\<lambda>r. dt_node r = 2 \<and> dt_inj_node r = 1) ex_det_time_60) = 1"
    and "length ex_det_time_60
           = card (tr_node ` set (tr_rows ex_trace)) * length (scenario_cols ex_trace)"
    by blast+
  then show ?thesis using ev c
    by (simp add: ex_trace_def)
qed

section \<open>Properties of contaminated\_volume\<close>

lemma those_eq_Some: "those xs = Some ys \<longleftrightarrow> xs = map Some ys"
  by (induction xs arbitrary: ys) (auto split: option.splits)

lemma contaminated_volume_unfold:
  "contaminated_volume args =
     (if list_all is_finite (map dt_time (arg_det_time args)) then
        (args\<lparr>arg_det_time :=
                map (\<lambda>r. r\<lparr>dt_time := Finite (real_of_int (cast_cell (dt_time r)))\<rparr>)
                  (arg_det_time args)\<rparr>,
         if max_sim_time (arg_trace args) = None \<and> arg_int_ids args then Inl ValueError
         else if arg_det_time args = [] then Inl TypeError
         else case those (map (\<lambda>r. contam_vol (arg_trace args) (arg_demand args)
                                   (clamp_time (max_sim_time (arg_trace args)) (cast_cell (dt_time r)),
                                    dt_inj_node r))
                           (arg_det_time args)) of
                None \<Rightarrow> Inl KeyError
              | Some vols \<Rightarrow>
                  Inr (map2 (\<lambda>r v. \<lparr>vr_node = dt_node r, vr_inj_node = dt_inj_node r,
                                      vr_volume = v\<rparr>) (arg_det_time args) vols))
      else (args, Inl ValueError))"
  by (auto simp add: contaminated_volume_def astype_int_def Let_def zip_map2 zip_map1
        zip_same_conv_map o_def split: option.splits)

lemma contaminated_volume_Inr_iff:
  "snd (contaminated_volume args) = Inr vol \<longleftrightarrow>
     list_all is_finite (map dt_time (arg_det_time args))
     \<and> \<not> (max_sim_time (arg_trace args) = None \<and> arg_int_ids args)
     \<and> arg_det_time args \<noteq> [] \<and> length vol = length (arg_det_time args)
     \<and> (\<forall>k<length (arg_det_time args).
           vr_node (vol ! k) = dt_node (arg_det_time args ! k)
         \<and> vr_inj_node (vol ! k) = dt_inj_node (arg_det_time args ! k)
         \<and> contam_vol (arg_trace args) (arg_demand args)
              (clamp_time (max_sim_time (arg_trace args)) (cast_cell (dt_time (arg_det_time args ! k))),
               dt_inj_node (arg_det_time args ! k)) = Some (vr_volume (vol ! k)))"
  (is "?L \<longleftrightarrow> ?R")
proof
  assume ?L
  then obtain vols where fin: "list_all is_finite (map dt_time (arg_det_time args))"
    and nv: "\<not> (max_sim_time (arg_trace args) = None \<and> arg_int_ids args)"
    and ne: "arg_det_time args \<noteq> []"
    and th: "map (\<lambda>r. contam_vol (arg_trace args) (arg_demand args)
                    (clamp_time (max_sim_time (arg_trace args)) (cast_cell (dt_time r)),
                     dt_inj_node r)) (arg_det_time args) = map Some vols"
    and vol: "vol = map2 (\<lambda>r v. \<lparr>vr_node = dt_node r, vr_inj_node = dt_inj_node r,
                                   vr_volume = v\<rparr>) (arg_det_time args) vols"
    by (auto simp: contaminated_volume_unfold those_eq_Some split: if_splits option.splits)
  from th have len: "length vols = length (arg_det_time args)"
    by (metis length_map)
  have "contam_vol (arg_trace args) (arg_demand args)
           (clamp_time (max_sim_time (arg_trace args)) (cast_cell (dt_time (arg_det_time args ! k))),
            dt_inj_node (arg_det_time args ! k)) = Some (vols ! k)"
    if "k < length (arg_det_time args)" for k
    using arg_cong [OF th, of "\<lambda>xs. xs ! k"] that len by simp
  with fin nv ne len vol show ?R by simp
next
  assume r: ?R
  let ?vols = "map vr_volume vol"
  have th: "map (\<lambda>r. contam_vol (arg_trace args) (arg_demand args)
                    (clamp_time (max_sim_time (arg_trace args)) (cast_cell (dt_time r)),
                     dt_inj_node r)) (arg_det_time args) = map Some ?vols"
    using r by (intro nth_equalityI) simp_all
  then have th2: "those (map (\<lambda>r. contam_vol (arg_trace args) (arg_demand args)
                    (clamp_time (max_sim_time (arg_trace args)) (cast_cell (dt_time r)),
                     dt_inj_node r)) (arg_det_time args)) = Some ?vols"
    by (simp only: those_eq_Some)
  have veq: "map2 (\<lambda>r v. \<lparr>vr_node = dt_node r, vr_inj_node = dt_inj_node r,
                             vr_volume = v\<rparr>) (arg_det_time args) ?vols = vol"
    using r by (intro nth_equalityI) simp_all
  show ?L
    unfolding contaminated_volume_unfold th2 using r veq by simp
qed

lemma ex_max_sim_time: "max_sim_time ex_trace = Some 3600"
  by (simp add: max_sim_time_def ex_trace_def)

lemma ex_contaminated_volume_60: "snd (contaminated_volume ex_args) = Inr ex_volume"
  by (simp add: contaminated_volume_def ex_args_def ex_max_sim_time clamp_time_def astype_int_def
      cast_cell_def is_finite_def int64_cast_def is_int64_def
      contam_vol_def nansum_def mul_cell_def ex_det_time_60_def ex_volume_def Let_def)
     (simp add: ex_trace_def ex_demand_def)

text \<open>
  C9 as stated fails: the detection time \<open>10 ^ 30\<close> is greater than the maximum time 3600
  of the trace and the injection node is a scenario column, but the cast of line 88 turns
  the time into \<open>- 2 ^ 63\<close>, which line 98 does not clamp, and the lookup raises KeyError.
\<close>

theorem contaminated_volume_far_time_counterexample:
  "max_sim_time (arg_trace ex_args_late) = Some 3600
   \<and> dt_time (arg_det_time ex_args_late ! 0) = Finite (10 ^ 30)
   \<and> real_of_int 3600 < 10 ^ 30
   \<and> dt_inj_node (arg_det_time ex_args_late ! 0) = 1
   \<and> 1 \<in> set (scenario_cols (arg_trace ex_args_late))
   \<and> length (arg_det_time ex_args_late) = 1
   \<and> snd (contaminated_volume ex_args_late) = Inl KeyError"
  by (simp add: contaminated_volume_def ex_args_late_def ex_max_sim_time clamp_time_def
      astype_int_def cast_cell_def is_finite_def int64_cast_def is_int64_def contam_vol_def Let_def)
     (simp add: ex_trace_def)

lemma contam_vol_defined:
  "t \<in> set (map tr_time (tr_rows trace)) \<Longrightarrow> j \<in> set (scenario_cols trace) \<Longrightarrow>
     \<exists>v. contam_vol trace demand (t, j) = Some v"
  by (simp add: contam_vol_def)

lemma int64_cast_of_int: "is_int64 t \<Longrightarrow> int64_cast (real_of_int t) = t"
  by (simp add: int64_cast_def)

lemma int64_cast_ge:
  assumes "real_of_int m < x" and "x < 2 ^ 63" and "is_int64 m"
  shows "m \<le> int64_cast x"
proof (cases "0 \<le> x")
  case True
  have "\<lfloor>x\<rfloor> < 2 ^ 63"
    using assms(2) by (simp add: floor_less_iff)
  moreover have "0 \<le> \<lfloor>x\<rfloor>" using True by simp
  ultimately have "is_int64 \<lfloor>x\<rfloor>" by (simp add: is_int64_def)
  moreover have "m \<le> \<lfloor>x\<rfloor>" using assms(1) by (simp add: le_floor_iff)
  ultimately show ?thesis using True by (simp add: int64_cast_def)
next
  case False
  have "real_of_int m < real_of_int \<lceil>x\<rceil>"
    using assms(1) by (meson le_of_int_ceiling less_le_trans)
  then have m: "m < \<lceil>x\<rceil>" by simp
  have le0: "\<lceil>x\<rceil> \<le> 0" using False by (simp add: ceiling_le_iff)
  have pos: "(0::int) < 2 ^ 63" by simp
  have lo: "- (2 ^ 63) \<le> \<lceil>x\<rceil>"
    using m assms(3) unfolding is_int64_def by linarith
  have hi: "\<lceil>x\<rceil> < 2 ^ 63"
    using le0 pos by linarith
  from lo hi have "is_int64 \<lceil>x\<rceil>" unfolding is_int64_def by (rule conjI)
  with m False show ?thesis by (simp add: int64_cast_def)
qed

lemma idx_time_in_trace:
  assumes mx: "max_sim_time trace = Some m"
    and int64: "\<forall>t\<in>set (map tr_time (tr_rows trace)). is_int64 t"
    and t: "(\<exists>t\<in>set (map tr_time (tr_rows trace)). c = Finite (real_of_int t))
            \<or> (\<exists>x. c = Finite x \<and> real_of_int m < x \<and> x < 2 ^ 63)"
  shows "clamp_time (max_sim_time trace) (cast_cell c) \<in> set (map tr_time (tr_rows trace))"
    and "\<And>x. c = Finite x \<Longrightarrow> real_of_int m < x \<Longrightarrow> x < 2 ^ 63 \<Longrightarrow>
           clamp_time (max_sim_time trace) (cast_cell c) = m"
    and "is_finite c"
proof -
  from mx have ne: "tr_rows trace \<noteq> []" and m: "m = Max (set (map tr_time (tr_rows trace)))"
    by (auto simp: max_sim_time_def split: if_splits)
  have m_in: "m \<in> set (map tr_time (tr_rows trace))"
    unfolding m using ne by (intro Max_in) simp_all
  with int64 have m64: "is_int64 m" by blast
  have late: "clamp_time (max_sim_time trace) (cast_cell c) = m"
    if "c = Finite x" "real_of_int m < x" "x < 2 ^ 63" for x
    using int64_cast_ge [OF that(2,3) m64] that(1) by (simp add: mx clamp_time_def cast_cell_def)
  then show "\<And>x. c = Finite x \<Longrightarrow> real_of_int m < x \<Longrightarrow> x < 2 ^ 63 \<Longrightarrow>
           clamp_time (max_sim_time trace) (cast_cell c) = m" .
  show "is_finite c" using t by (auto simp: is_finite_def)
  show "clamp_time (max_sim_time trace) (cast_cell c) \<in> set (map tr_time (tr_rows trace))"
    using t
  proof
    assume "\<exists>t\<in>set (map tr_time (tr_rows trace)). c = Finite (real_of_int t)"
    then obtain t where tt: "t \<in> set (map tr_time (tr_rows trace))" "c = Finite (real_of_int t)"
      by blast
    then have "t \<le> m" unfolding m by (intro Max_ge) simp_all
    moreover from tt int64 have "is_int64 t" by blast
    ultimately show ?thesis
      using tt by (simp add: mx clamp_time_def cast_cell_def int64_cast_of_int)
  next
    assume "\<exists>x. c = Finite x \<and> real_of_int m < x \<and> x < 2 ^ 63"
    with late m_in show ?thesis by auto
  qed
qed

text \<open>
  C9, amended. For a trace with rows, whose times are int64 values and whose maximum time
  is \<open>m\<close>, and a detection-time table with at least one row, whose injection nodes are
  scenario columns of the trace and whose times are each a time of the trace, or finite,
  greater than \<open>m\<close> and below \<open>2 ^ 63\<close>: the call returns a table, with one row per
  detection-time row, and a pair whose time is greater than \<open>m\<close> (a never-detected
  pair) receives the entry of \<open>contam_vol\<close> for the last time \<open>m\<close>.
\<close>

theorem contaminated_volume_clamps_late_times:
  assumes "max_sim_time (arg_trace args) = Some m"
    and "\<forall>t\<in>set (map tr_time (tr_rows (arg_trace args))). is_int64 t"
    and "arg_det_time args \<noteq> []"
    and "\<forall>r\<in>set (arg_det_time args).
           dt_inj_node r \<in> set (scenario_cols (arg_trace args))
         \<and> ((\<exists>t\<in>set (map tr_time (tr_rows (arg_trace args))). dt_time r = Finite (real_of_int t))
            \<or> (\<exists>x. dt_time r = Finite x \<and> real_of_int m < x \<and> x < 2 ^ 63))"
  shows "\<exists>vol. snd (contaminated_volume args) = Inr vol
           \<and> length vol = length (arg_det_time args)
           \<and> (\<forall>k<length (arg_det_time args).
                 (\<exists>x. dt_time (arg_det_time args ! k) = Finite x \<and> real_of_int m < x) \<longrightarrow>
                 contam_vol (arg_trace args) (arg_demand args)
                    (m, dt_inj_node (arg_det_time args ! k)) = Some (vr_volume (vol ! k)))"
proof -
  let ?key = "\<lambda>r. (clamp_time (max_sim_time (arg_trace args)) (cast_cell (dt_time r)),
                   dt_inj_node r)"
  let ?cv = "contam_vol (arg_trace args) (arg_demand args)"
  let ?vol = "map (\<lambda>r. \<lparr>vr_node = dt_node r, vr_inj_node = dt_inj_node r,
                        vr_volume = the (?cv (?key r))\<rparr>) (arg_det_time args)"
  have row: "dt_inj_node r \<in> set (scenario_cols (arg_trace args))"
    "(\<exists>t\<in>set (map tr_time (tr_rows (arg_trace args))). dt_time r = Finite (real_of_int t))
       \<or> (\<exists>x. dt_time r = Finite x \<and> real_of_int m < x \<and> x < 2 ^ 63)"
    if "r \<in> set (arg_det_time args)" for r
    using assms(4) that by blast+
  have found: "?cv (?key r) = Some (the (?cv (?key r)))" if "r \<in> set (arg_det_time args)" for r
    using contam_vol_defined [OF idx_time_in_trace(1) [OF assms(1,2) row(2) [OF that]] row(1) [OF that]]
    by auto
  have fin: "list_all is_finite (map dt_time (arg_det_time args))"
    using idx_time_in_trace(3) [OF assms(1,2) row(2)] by (simp add: list_all_iff)
  have "snd (contaminated_volume args) = Inr ?vol"
    unfolding contaminated_volume_Inr_iff using assms(1,3) found fin by simp
  moreover have "?cv (m, dt_inj_node (arg_det_time args ! k)) = Some (vr_volume (?vol ! k))"
    if k: "k < length (arg_det_time args)"
      and late: "\<exists>x. dt_time (arg_det_time args ! k) = Finite x \<and> real_of_int m < x"
    for k
  proof -
    let ?r = "arg_det_time args ! k"
    have mem: "?r \<in> set (arg_det_time args)" using k by simp
    from late obtain x where x: "dt_time ?r = Finite x" "real_of_int m < x" by blast
    have "x < 2 ^ 63"
    proof -
      from row(2) [OF mem] show ?thesis
      proof
        assume "\<exists>t\<in>set (map tr_time (tr_rows (arg_trace args))). dt_time ?r = Finite (real_of_int t)"
        then obtain t where t: "t \<in> set (map tr_time (tr_rows (arg_trace args)))"
          "x = real_of_int t" using x(1) by auto
        with assms(2) have "is_int64 t" by blast
        then have "t < 2 ^ 63" by (simp add: is_int64_def)
        then have "real_of_int t < real_of_int (2 ^ 63)" by (simp only: of_int_less_iff)
        then show ?thesis using t(2) by simp
      next
        assume "\<exists>x. dt_time ?r = Finite x \<and> real_of_int m < x \<and> x < 2 ^ 63"
        with x(1) show ?thesis by auto
      qed
    qed
    with idx_time_in_trace(2) [OF assms(1,2) row(2) [OF mem] x(1) x(2)]
    have "?key ?r = (m, dt_inj_node ?r)" by simp
    with found [OF mem] k show ?thesis by simp
  qed
  ultimately show ?thesis by (intro exI [of _ ?vol]) simp
qed

theorem contaminated_volume_clamps_late_times_witness:
  "snd (contaminated_volume ex_args) = Inr ex_volume
   \<and> max_sim_time ex_trace = Some 3600
   \<and> dt_time (ex_det_time_60 ! 1) = Finite 7200
   \<and> contam_vol ex_trace ex_demand (3600, 1) = Some (vr_volume (ex_volume ! 1))"
proof -
  have mx: "max_sim_time (arg_trace ex_args) = Some 3600"
    by (simp add: ex_args_def ex_max_sim_time)
  have i64: "\<forall>t\<in>set (map tr_time (tr_rows (arg_trace ex_args))). is_int64 t"
    by (simp add: ex_args_def ex_trace_def is_int64_def)
  have ne: "arg_det_time ex_args \<noteq> []"
    by (simp add: ex_args_def ex_det_time_60_def)
  have ok: "\<forall>r\<in>set (arg_det_time ex_args).
           dt_inj_node r \<in> set (scenario_cols (arg_trace ex_args))
         \<and> ((\<exists>t\<in>set (map tr_time (tr_rows (arg_trace ex_args))). dt_time r = Finite (real_of_int t))
            \<or> (\<exists>x. dt_time r = Finite x \<and> real_of_int 3600 < x \<and> x < 2 ^ 63))"
    by (simp add: ex_args_def ex_det_time_60_def ex_trace_def)
  from contaminated_volume_clamps_late_times [OF mx i64 ne ok]
  obtain vol where v: "snd (contaminated_volume ex_args) = Inr vol"
    and late: "\<forall>k<length (arg_det_time ex_args).
                 (\<exists>x. dt_time (arg_det_time ex_args ! k) = Finite x \<and> real_of_int 3600 < x) \<longrightarrow>
                 contam_vol (arg_trace ex_args) (arg_demand ex_args)
                    (3600, dt_inj_node (arg_det_time ex_args ! k)) = Some (vr_volume (vol ! k))"
    by blast
  from v have vol: "vol = ex_volume"
    by (simp add: ex_contaminated_volume_60)
  from late [rule_format, of 1] have
    "contam_vol ex_trace ex_demand (3600, 1) = Some (vr_volume (vol ! 1))"
    by (simp add: ex_args_def ex_det_time_60_def)
  with v vol show ?thesis
    by (simp add: ex_max_sim_time ex_det_time_60_def)
qed

lemma int64_cast_spec:
  "if - (2 ^ 63) - 1 < x \<and> x < 2 ^ 63
   then (0 \<le> x \<longrightarrow> real_of_int (int64_cast x) \<le> x \<and> x < real_of_int (int64_cast x) + 1)
      \<and> (x < 0 \<longrightarrow> real_of_int (int64_cast x) - 1 < x \<and> x \<le> real_of_int (int64_cast x))
   else int64_cast x = - (2 ^ 63)"
proof (cases "0 \<le> x")
  case True
  have range: "is_int64 \<lfloor>x\<rfloor> \<longleftrightarrow> x < 2 ^ 63"
  proof -
    have "0 \<le> \<lfloor>x\<rfloor>" using True by simp
    moreover have "(0::int) < 2 ^ 63" by simp
    moreover have "\<lfloor>x\<rfloor> < 2 ^ 63 \<longleftrightarrow> x < 2 ^ 63" by (simp add: floor_less_iff)
    ultimately show ?thesis unfolding is_int64_def by linarith
  qed
  have low: "- (2 ^ 63) - 1 < x"
  proof -
    have "(0::real) < 2 ^ 63" by simp
    with True show ?thesis by linarith
  qed
  show ?thesis
  proof (cases "x < 2 ^ 63")
    case lt: True
    with range True have "int64_cast x = \<lfloor>x\<rfloor>" by (simp add: int64_cast_def)
    moreover have "real_of_int \<lfloor>x\<rfloor> \<le> x" "x < real_of_int \<lfloor>x\<rfloor> + 1" by linarith+
    ultimately show ?thesis using True lt low by simp
  next
    case ge: False
    with range True have "int64_cast x = - (2 ^ 63)" by (simp add: int64_cast_def)
    with ge show ?thesis by simp
  qed
next
  case False
  have hi: "x < 2 ^ 63"
  proof -
    have "(0::real) < 2 ^ 63" by simp
    with False show ?thesis by linarith
  qed
  have range: "is_int64 \<lceil>x\<rceil> \<longleftrightarrow> - (2 ^ 63) - 1 < x"
  proof -
    have "\<lceil>x\<rceil> \<le> 0" using False by (simp add: ceiling_le_iff)
    moreover have "(0::int) < 2 ^ 63" by simp
    moreover have "- (2 ^ 63) \<le> \<lceil>x\<rceil> \<longleftrightarrow> - (2 ^ 63) - 1 < x"
    proof -
      have "- (2 ^ 63) \<le> \<lceil>x\<rceil> \<longleftrightarrow> real_of_int (- (2 ^ 63)) - 1 < x"
        by (rule le_ceiling_iff)
      then show ?thesis by simp
    qed
    ultimately show ?thesis unfolding is_int64_def by linarith
  qed
  show ?thesis
  proof (cases "- (2 ^ 63) - 1 < x")
    case gt: True
    with range False have "int64_cast x = \<lceil>x\<rceil>" by (simp add: int64_cast_def)
    moreover have "real_of_int \<lceil>x\<rceil> - 1 < x" "x \<le> real_of_int \<lceil>x\<rceil>" by linarith+
    ultimately show ?thesis using False gt hi by simp
  next
    case le: False
    with range False have "int64_cast x = - (2 ^ 63)" by (simp add: int64_cast_def)
    with le show ?thesis by simp
  qed
qed

lemma is_finite_iff: "is_finite c \<longleftrightarrow> (\<exists>x. c = Finite x)"
  by (cases c) (simp_all add: is_finite_def)

lemma not_all_finite:
  "\<exists>r\<in>set rs. \<forall>x. dt_time r \<noteq> Finite x \<Longrightarrow> \<not> list_all is_finite (map dt_time rs)"
  by (auto simp: list_all_iff is_finite_def split: float64.splits)

lemma all_finite:
  "\<forall>r\<in>set rs. \<exists>x. dt_time r = Finite x \<Longrightarrow> list_all is_finite (map dt_time rs)"
  by (auto simp: list_all_iff is_finite_def)

text \<open>
  C8, amended. The trace and the demand table are as before after every call. When every
  time of the detection-time table is finite, the caller's table has its time column
  replaced by the cast to int64 after the call, whether the call returns or raises later:
  the fraction of a time is cut off towards zero, and a time whose integer part is not an
  int64 becomes \<open>- 2 ^ 63\<close>. When a time is NaN or infinite, the call raises ValueError in
  line 88 and the table is as before.
\<close>

theorem contaminated_volume_mutates_det_time:
  "arg_trace (fst (contaminated_volume args)) = arg_trace args
   \<and> arg_demand (fst (contaminated_volume args)) = arg_demand args
   \<and> ((\<exists>r\<in>set (arg_det_time args). \<forall>x. dt_time r \<noteq> Finite x) \<longrightarrow>
        contaminated_volume args = (args, Inl ValueError))
   \<and> ((\<forall>r\<in>set (arg_det_time args). \<exists>x. dt_time r = Finite x) \<longrightarrow>
        length (arg_det_time (fst (contaminated_volume args))) = length (arg_det_time args)
        \<and> (\<forall>k<length (arg_det_time args). \<forall>x. dt_time (arg_det_time args ! k) = Finite x \<longrightarrow>
             (\<exists>v. arg_det_time (fst (contaminated_volume args)) ! k
                     = (arg_det_time args ! k)\<lparr>dt_time := Finite (real_of_int v)\<rparr>
                 \<and> (if - (2 ^ 63) - 1 < x \<and> x < 2 ^ 63
                    then (0 \<le> x \<longrightarrow> real_of_int v \<le> x \<and> x < real_of_int v + 1)
                       \<and> (x < 0 \<longrightarrow> real_of_int v - 1 < x \<and> x \<le> real_of_int v)
                    else v = - (2 ^ 63)))))"
proof (intro conjI impI allI)
  show "arg_trace (fst (contaminated_volume args)) = arg_trace args"
    by (simp add: contaminated_volume_unfold)
  show "arg_demand (fst (contaminated_volume args)) = arg_demand args"
    by (simp add: contaminated_volume_unfold)
next
  assume "\<exists>r\<in>set (arg_det_time args). \<forall>x. dt_time r \<noteq> Finite x"
  then have "\<not> list_all is_finite (map dt_time (arg_det_time args))"
    by (rule not_all_finite)
  then show "contaminated_volume args = (args, Inl ValueError)"
    by (simp add: contaminated_volume_unfold)
next
  assume "\<forall>r\<in>set (arg_det_time args). \<exists>x. dt_time r = Finite x"
  then have fin: "list_all is_finite (map dt_time (arg_det_time args))"
    by (rule all_finite)
  then show "length (arg_det_time (fst (contaminated_volume args))) = length (arg_det_time args)"
    by (simp add: contaminated_volume_unfold)
  fix k x
  assume k: "k < length (arg_det_time args)" and x: "dt_time (arg_det_time args ! k) = Finite x"
  have "arg_det_time (fst (contaminated_volume args)) ! k
          = (arg_det_time args ! k)\<lparr>dt_time := Finite (real_of_int (int64_cast x))\<rparr>"
    using fin k x by (simp add: contaminated_volume_unfold cast_cell_def)
  with int64_cast_spec [of x]
  show "\<exists>v. arg_det_time (fst (contaminated_volume args)) ! k
                     = (arg_det_time args ! k)\<lparr>dt_time := Finite (real_of_int v)\<rparr>
                 \<and> (if - (2 ^ 63) - 1 < x \<and> x < 2 ^ 63
                    then (0 \<le> x \<longrightarrow> real_of_int v \<le> x \<and> x < real_of_int v + 1)
                       \<and> (x < 0 \<longrightarrow> real_of_int v - 1 < x \<and> x \<le> real_of_int v)
                    else v = - (2 ^ 63))"
    by (intro exI [of _ "int64_cast x"]) simp
qed

text \<open>
  C8 as stated fails: with an infinite detection time the cast of line 88 raises, and after
  the call the caller's table still holds the infinite time.
\<close>

theorem contaminated_volume_infinite_time_counterexample:
  "dt_time (arg_det_time ex_args_inf ! 0) = PosInf
   \<and> length (arg_det_time ex_args_inf) = 1
   \<and> contaminated_volume ex_args_inf = (ex_args_inf, Inl ValueError)"
  by (simp add: contaminated_volume_def ex_args_inf_def astype_int_def is_finite_def)

lemma ceiling_minus_half: "\<lceil>- (1 / 2) :: real\<rceil> = 0"
  by (simp add: ceiling_eq_iff)

lemma ex_contaminated_volume_fraction:
  "contaminated_volume ex_args_fraction
     = (ex_args_fraction\<lparr>arg_det_time := ex_det_time_cast\<rparr>, Inl KeyError)"
  by (simp add: ceiling_minus_half contaminated_volume_def ex_args_fraction_def ex_det_time_cast_def
      ex_max_sim_time clamp_time_def astype_int_def cast_cell_def is_finite_def int64_cast_def
      is_int64_def contam_vol_def Let_def)
     (simp add: ex_trace_def)

theorem contaminated_volume_mutates_det_time_witness:
  "contaminated_volume ex_args_fraction
     = (ex_args_fraction\<lparr>arg_det_time := ex_det_time_cast\<rparr>, Inl KeyError)
   \<and> dt_time (arg_det_time ex_args_fraction ! 0) = Finite 3600.9
   \<and> dt_time (ex_det_time_cast ! 0) = Finite 3600
   \<and> dt_time (arg_det_time ex_args_fraction ! 1) = Finite (- 0.5)
   \<and> dt_time (ex_det_time_cast ! 1) = Finite 0
   \<and> dt_time (arg_det_time ex_args_fraction ! 2) = Finite (10 ^ 30)
   \<and> dt_time (ex_det_time_cast ! 2) = Finite (- (2 ^ 63))
   \<and> (\<exists>v. ex_det_time_cast ! 0
             = (arg_det_time ex_args_fraction ! 0)\<lparr>dt_time := Finite (real_of_int v)\<rparr>
         \<and> real_of_int v \<le> 3600.9 \<and> 3600.9 < real_of_int v + 1)"
proof -
  have "list_all is_finite (map dt_time (arg_det_time ex_args_fraction))"
    by (simp add: ex_args_fraction_def is_finite_def)
  then have fin: "\<forall>r\<in>set (arg_det_time ex_args_fraction). \<exists>x. dt_time r = Finite x"
    by (simp add: list_all_iff is_finite_iff)
  have k: "0 < length (arg_det_time ex_args_fraction)"
    and x: "dt_time (arg_det_time ex_args_fraction ! 0) = Finite 3600.9"
    by (simp_all add: ex_args_fraction_def)
  have stored: "arg_det_time (fst (contaminated_volume ex_args_fraction)) = ex_det_time_cast"
    by (simp add: ex_contaminated_volume_fraction)
  from contaminated_volume_mutates_det_time [of ex_args_fraction] fin k x
  have "\<exists>v. arg_det_time (fst (contaminated_volume ex_args_fraction)) ! 0
               = (arg_det_time ex_args_fraction ! 0)\<lparr>dt_time := Finite (real_of_int v)\<rparr>
           \<and> (if - (2 ^ 63) - 1 < (3600.9::real) \<and> (3600.9::real) < 2 ^ 63
              then (0 \<le> (3600.9::real) \<longrightarrow> real_of_int v \<le> 3600.9 \<and> 3600.9 < real_of_int v + 1)
                 \<and> ((3600.9::real) < 0 \<longrightarrow> real_of_int v - 1 < 3600.9 \<and> 3600.9 \<le> real_of_int v)
              else v = - (2 ^ 63))"
    by blast
  then have "\<exists>v. ex_det_time_cast ! 0
             = (arg_det_time ex_args_fraction ! 0)\<lparr>dt_time := Finite (real_of_int v)\<rparr>
         \<and> real_of_int v \<le> 3600.9 \<and> 3600.9 < real_of_int v + 1"
    unfolding stored by simp
  then show ?thesis
    using ex_contaminated_volume_fraction
    by (simp add: ex_args_fraction_def ex_det_time_cast_def)
qed

lemma length_mul_axis0 [simp]: "length (mul_axis0 rs ds) = length rs"
  by (induction rs ds rule: mul_axis0.induct) simp_all

lemma mul_axis0_nth:
  "i < length rs \<Longrightarrow>
     mul_axis0 rs ds ! i
       = (rs ! i, if i < length ds then Some (0.01 * dm_demand (ds ! i)) else None)"
proof (induction rs ds arbitrary: i rule: mul_axis0.induct)
  case (1 ds)
  then show ?case by simp
next
  case (2 r rs)
  then show ?case by (cases i) simp_all
next
  case (3 r rs d ds)
  then show ?case by (cases i) simp_all
qed

lemma mul_axis0_conv_map:
  "mul_axis0 rs ds
     = map (\<lambda>i. (rs ! i, if i < length ds then Some (0.01 * dm_demand (ds ! i)) else None))
         [0..<length rs]"
  by (intro nth_equalityI) (simp_all add: mul_axis0_nth)

lemma sum_list_filter_upt:
  fixes F :: "nat \<Rightarrow> real"
  shows "sum_list (map F (filter P [0..<n])) = sum F {i. i < n \<and> P i}"
proof -
  have "sum_list (map F (filter P [0..<n])) = sum F (set (filter P [0..<n]))"
    by (intro sum_list_distinct_conv_sum_set) simp
  also have "set (filter P [0..<n]) = {i. i < n \<and> P i}" by auto
  finally show ?thesis .
qed

lemma step_sum_conv:
  "nansum (map (\<lambda>p. mul_cell p col)
      (filter (\<lambda>p. tr_time (fst p) = t) (mul_axis0 rs ds)))
   = (\<Sum>i\<in>{i. i < length rs \<and> tr_time (rs ! i) = t}.
        tr_conc (rs ! i) col * (0.01 * (if i < length ds then dm_demand (ds ! i) else 0)))"
proof -
  let ?g = "\<lambda>i. (rs ! i, if i < length ds then Some (0.01 * dm_demand (ds ! i)) else None)"
  let ?F = "\<lambda>i. tr_conc (rs ! i) col * (0.01 * (if i < length ds then dm_demand (ds ! i) else 0))"
  have pt: "(case mul_cell (?g i) col of None \<Rightarrow> 0 | Some x \<Rightarrow> x) = ?F i" for i
    by (simp add: mul_cell_def)
  have "nansum (map (\<lambda>p. mul_cell p col)
          (filter (\<lambda>p. tr_time (fst p) = t) (mul_axis0 rs ds)))
        = sum_list (map ?F (filter (\<lambda>i. tr_time (rs ! i) = t) [0..<length rs]))"
    unfolding mul_axis0_conv_map nansum_def filter_map map_map o_def pt fst_conv ..
  then show ?thesis by (simp add: sum_list_filter_upt)
qed

lemma contam_vol_Some:
  assumes "contam_vol trace demand (t, j) = Some v"
  shows "t \<in> set (map tr_time (tr_rows trace))" and "j \<in> set (scenario_cols trace)"
    and "v = (\<Sum>i\<in>{i. i < length (tr_rows trace) \<and> tr_time (tr_rows trace ! i) = t}.
                tr_conc (tr_rows trace ! i) j
                * (0.01 * (if i < length demand then dm_demand (demand ! i) else 0)))"
  using assms by (auto simp: contam_vol_def step_sum_conv split: if_splits)

text \<open>
  C2, amended. When the call returns a table \<open>vol\<close>, row \<open>k\<close> of it carries the node and
  the injection node of row \<open>k\<close> of the detection-time table, and its volume is made of
  per-timestep totals of the whole network: the total of a timestep is the sum, over the
  rows of the trace at that time, whatever their node, of the trace percentage in the
  column of the injection node times 0.01 times the demand in the demand row at the same
  position. Which timesteps contribute is left open.
\<close>

theorem contaminated_volume_network_wide:
  assumes "snd (contaminated_volume args) = Inr vol"
    and "k < length (arg_det_time args)"
  shows "length vol = length (arg_det_time args)
       \<and> vr_node (vol ! k) = dt_node (arg_det_time args ! k)
       \<and> vr_inj_node (vol ! k) = dt_inj_node (arg_det_time args ! k)
       \<and> (\<exists>T\<subseteq>set (map tr_time (tr_rows (arg_trace args))).
            vr_volume (vol ! k)
              = (\<Sum>t\<in>T. \<Sum>i\<in>{i. i < length (tr_rows (arg_trace args))
                                  \<and> tr_time (tr_rows (arg_trace args) ! i) = t}.
                   tr_conc (tr_rows (arg_trace args) ! i) (dt_inj_node (arg_det_time args ! k))
                   * (0.01 * (if i < length (arg_demand args)
                              then dm_demand (arg_demand args ! i) else 0))))"
proof -
  let ?t = "clamp_time (max_sim_time (arg_trace args)) (cast_cell (dt_time (arg_det_time args ! k)))"
  from assms have len: "length vol = length (arg_det_time args)"
    and n: "vr_node (vol ! k) = dt_node (arg_det_time args ! k)"
    and j: "vr_inj_node (vol ! k) = dt_inj_node (arg_det_time args ! k)"
    and cv: "contam_vol (arg_trace args) (arg_demand args)
               (?t, dt_inj_node (arg_det_time args ! k)) = Some (vr_volume (vol ! k))"
    by (simp_all add: contaminated_volume_Inr_iff)
  from contam_vol_Some(1,3) [OF cv]
  have "{?t} \<subseteq> set (map tr_time (tr_rows (arg_trace args)))"
    and "vr_volume (vol ! k)
              = (\<Sum>t\<in>{?t}. \<Sum>i\<in>{i. i < length (tr_rows (arg_trace args))
                                  \<and> tr_time (tr_rows (arg_trace args) ! i) = t}.
                   tr_conc (tr_rows (arg_trace args) ! i) (dt_inj_node (arg_det_time args ! k))
                   * (0.01 * (if i < length (arg_demand args)
                              then dm_demand (arg_demand args ! i) else 0)))"
    by simp_all
  then have "\<exists>T\<subseteq>set (map tr_time (tr_rows (arg_trace args))).
            vr_volume (vol ! k)
              = (\<Sum>t\<in>T. \<Sum>i\<in>{i. i < length (tr_rows (arg_trace args))
                                  \<and> tr_time (tr_rows (arg_trace args) ! i) = t}.
                   tr_conc (tr_rows (arg_trace args) ! i) (dt_inj_node (arg_det_time args ! k))
                   * (0.01 * (if i < length (arg_demand args)
                              then dm_demand (arg_demand args ! i) else 0)))"
    by blast
  with len n j show ?thesis by blast
qed

lemma ex_contaminated_volume_1: "snd (contaminated_volume ex_args_1) = Inr ex_volume"
  by (simp add: contaminated_volume_def ex_args_1_def ex_max_sim_time clamp_time_def astype_int_def
      cast_cell_def is_finite_def int64_cast_def is_int64_def contam_vol_def nansum_def mul_cell_def ex_det_time_def ex_volume_def Let_def)
     (simp add: ex_trace_def ex_demand_def)

text \<open>
  C2 as stated fails: node 2 detects the injection at node 1 at 3600 s; the volume returned
  for the pair is 4, while the contaminated water consumed at node 2 strictly before 3600 s,
  as the specification sums it, is 0.04.
\<close>

theorem contaminated_volume_per_node_counterexample:
  "detection_time ex_trace 1 None = Inr ex_det_time
   \<and> snd (contaminated_volume
            \<lparr>arg_trace = ex_trace, arg_demand = ex_demand, arg_det_time = ex_det_time,
             arg_int_ids = True\<rparr>)
       = Inr ex_volume
   \<and> dt_node (ex_det_time ! 1) = 2 \<and> dt_inj_node (ex_det_time ! 1) = 1
   \<and> dt_time (ex_det_time ! 1) = Finite 3600
   \<and> vr_node (ex_volume ! 1) = 2 \<and> vr_inj_node (ex_volume ! 1) = 1
   \<and> vr_volume (ex_volume ! 1) = 4
   \<and> spec_volume_before_detection ex_trace ex_demand 2 1 3600 = 0.04"
proof -
  have "spec_volume_before_detection ex_trace ex_demand 2 1 3600 = 0.04"
    by (simp add: spec_volume_before_detection_def demand_of_def ex_trace_def ex_demand_def)
  then show ?thesis
    using ex_detection_time_1 ex_contaminated_volume_1
    by (simp add: ex_args_1_def ex_det_time_def ex_volume_def)
qed

theorem contaminated_volume_network_wide_witness:
  "length ex_volume = length ex_det_time
   \<and> vr_node (ex_volume ! 1) = dt_node (ex_det_time ! 1)
   \<and> vr_inj_node (ex_volume ! 1) = dt_inj_node (ex_det_time ! 1)
   \<and> (\<exists>T\<subseteq>set (map tr_time (tr_rows ex_trace)).
         vr_volume (ex_volume ! 1)
           = (\<Sum>t\<in>T. \<Sum>i\<in>{i. i < length (tr_rows ex_trace) \<and> tr_time (tr_rows ex_trace ! i) = t}.
                tr_conc (tr_rows ex_trace ! i) (dt_inj_node (ex_det_time ! 1))
                * (0.01 * (if i < length ex_demand then dm_demand (ex_demand ! i) else 0))))"
proof -
  have k: "1 < length (arg_det_time ex_args_1)"
    by (simp add: ex_args_1_def ex_det_time_def)
  have a: "arg_trace ex_args_1 = ex_trace" "arg_demand ex_args_1 = ex_demand"
    "arg_det_time ex_args_1 = ex_det_time"
    by (simp_all add: ex_args_1_def)
  show ?thesis
    using contaminated_volume_network_wide [OF ex_contaminated_volume_1 k]
    unfolding a .
qed

lemma find_distinct_key:
  "distinct (map f xs) \<Longrightarrow> i < length xs \<Longrightarrow> find (\<lambda>x. f x = f (xs ! i)) xs = Some (xs ! i)"
proof (induction xs arbitrary: i)
  case Nil
  then show ?case by simp
next
  case (Cons x xs)
  show ?case
  proof (cases i)
    case 0
    then show ?thesis by simp
  next
    case (Suc k)
    with Cons.prems have "f x \<noteq> f (xs ! k)" by auto
    with Cons Suc show ?thesis by simp
  qed
qed

lemma mul_axis0_zip:
  "length rs = length ds \<Longrightarrow>
     mul_axis0 rs ds = map (\<lambda>(r, d). (r, Some (0.01 * dm_demand d))) (zip rs ds)"
  by (induction rs ds rule: list_induct2) simp_all

lemma step_sum_mset:
  "nansum (map (\<lambda>p. mul_cell p col) (filter (\<lambda>p. tr_time (fst p) = t)
      (map (\<lambda>(r, d). (r, Some (0.01 * dm_demand d))) zs)))
   = sum_mset (image_mset (\<lambda>p. case mul_cell p col of None \<Rightarrow> 0 | Some x \<Rightarrow> x)
       (filter_mset (\<lambda>p. tr_time (fst p) = t)
         (image_mset (\<lambda>(r, d). (r, Some (0.01 * dm_demand d))) (mset zs))))"
  unfolding nansum_def map_map
  by (simp only: sum_mset_sum_list [symmetric] mset_map mset_filter image_mset.compositionality o_def)

lemma contam_vol_reorder:
  assumes "length rs = length ds" and "length rs' = length ds'"
    and "mset (zip rs' ds') = mset (zip rs ds)"
  shows "contam_vol (trace\<lparr>tr_rows := rs'\<rparr>) ds' = contam_vol (trace\<lparr>tr_rows := rs\<rparr>) ds"
proof -
  have "set (map tr_time rs') = (tr_time \<circ> fst) ` set_mset (mset (zip rs' ds'))"
    using assms(2) by (metis (no_types) image_comp list.set_map map_fst_zip set_mset_mset)
  moreover have "set (map tr_time rs) = (tr_time \<circ> fst) ` set_mset (mset (zip rs ds))"
    using assms(1) by (metis (no_types) image_comp list.set_map map_fst_zip set_mset_mset)
  ultimately have times: "set (map tr_time rs') = set (map tr_time rs)"
    using assms(3) by simp
  show ?thesis
  proof (rule ext)
    fix x :: "int \<times> 'a"
    obtain t j where x: "x = (t, j)" by (cases x)
    define S where "S = (\<lambda>rs ds. nansum (map (\<lambda>p. mul_cell p j)
                           (filter (\<lambda>p. tr_time (fst p) = t) (mul_axis0 rs ds))))"
    have S: "S rs' ds' = S rs ds"
      unfolding S_def mul_axis0_zip [OF assms(2)] mul_axis0_zip [OF assms(1)]
        step_sum_mset assms(3) ..
    have c: "contam_vol (trace\<lparr>tr_rows := r\<rparr>) d (t, j)
               = (if t \<in> set (map tr_time r) \<and> j \<in> set (scenario_cols trace)
                  then Some (S r d) else None)" for r d
      by (simp add: contam_vol_def S_def)
    show "contam_vol (trace\<lparr>tr_rows := rs'\<rparr>) ds' x = contam_vol (trace\<lparr>tr_rows := rs\<rparr>) ds x"
      unfolding x c times S ..
  qed
qed

lemma demand_of_nth:
  assumes "distinct (map (\<lambda>d. (dm_time d, dm_node d)) demand)" and "i < length demand"
  shows "demand_of demand (dm_time (demand ! i)) (dm_node (demand ! i)) = dm_demand (demand ! i)"
proof -
  have "find (\<lambda>d. (dm_time d, dm_node d) = (dm_time (demand ! i), dm_node (demand ! i))) demand
          = Some (demand ! i)"
    using assms by (rule find_distinct_key)
  then show ?thesis by (simp add: demand_of_def)
qed

lemma mul_axis0_same_pairs:
  assumes same: "map (\<lambda>r. (tr_time r, tr_node r)) rs = map (\<lambda>d. (dm_time d, dm_node d)) demand"
    and dist: "distinct (map (\<lambda>d. (dm_time d, dm_node d)) demand)"
  shows "mul_axis0 rs demand
           = map (\<lambda>r. (r, Some (0.01 * demand_of demand (tr_time r) (tr_node r)))) rs"
proof (intro nth_equalityI)
  show "length (mul_axis0 rs demand)
          = length (map (\<lambda>r. (r, Some (0.01 * demand_of demand (tr_time r) (tr_node r)))) rs)"
    by simp
next
  fix i assume "i < length (mul_axis0 rs demand)"
  then have i: "i < length rs" by simp
  from same have len: "length rs = length demand" by (metis length_map)
  from arg_cong [OF same, of "\<lambda>xs. xs ! i"] i len
  have key: "tr_time (rs ! i) = dm_time (demand ! i)" "tr_node (rs ! i) = dm_node (demand ! i)"
    by simp_all
  have "demand_of demand (tr_time (rs ! i)) (tr_node (rs ! i)) = dm_demand (demand ! i)"
    unfolding key using dist i len by (intro demand_of_nth) simp_all
  then show "mul_axis0 rs demand ! i
          = map (\<lambda>r. (r, Some (0.01 * demand_of demand (tr_time r) (tr_node r)))) rs ! i"
    using i len by (simp add: mul_axis0_nth)
qed

lemma contam_vol_same_pairs:
  assumes "map (\<lambda>r. (tr_time r, tr_node r)) (tr_rows trace)
             = map (\<lambda>d. (dm_time d, dm_node d)) demand"
    and "distinct (map (\<lambda>d. (dm_time d, dm_node d)) demand)"
  shows "contam_vol trace demand (t, j)
           = (if t \<in> set (map tr_time (tr_rows trace)) \<and> j \<in> set (scenario_cols trace)
              then Some (spec_step_volume trace demand t j) else None)"
proof -
  have "nansum (map (\<lambda>p. mul_cell p j) (filter (\<lambda>p. tr_time (fst p) = t)
            (mul_axis0 (tr_rows trace) demand)))
        = spec_step_volume trace demand t j"
    unfolding mul_axis0_same_pairs [OF assms] spec_step_volume_def nansum_def
    by (simp add: filter_map o_def mul_cell_def)
  then show ?thesis by (simp add: contam_vol_def)
qed

text \<open>
  C4, amended. The two tables are multiplied row by row, aligned on the row index: row
  \<open>i\<close> of the trace is multiplied by 0.01 times the demand in row \<open>i\<close> of the demand
  table. For all inputs in which row \<open>i\<close> of the trace and row \<open>i\<close> of the demand table
  carry the same (time, node) pair for every \<open>i\<close>, each pair once, the percentage of a
  (time, node) pair is multiplied by the demand of that same pair, and the per-timestep
  contaminated volume is invariant under any common reordering of the rows of the two
  tables.
\<close>

theorem contam_vol_aligned_by_row:
  "(\<forall>i<length (tr_rows trace).
       mul_axis0 (tr_rows trace) demand ! i
         = (tr_rows trace ! i,
            if i < length demand then Some (0.01 * dm_demand (demand ! i)) else None))
   \<and> (map (\<lambda>r. (tr_time r, tr_node r)) (tr_rows trace)
         = map (\<lambda>d. (dm_time d, dm_node d)) demand
       \<and> distinct (map (\<lambda>d. (dm_time d, dm_node d)) demand) \<longrightarrow>
       (\<forall>t j. contam_vol trace demand (t, j)
                = (if t \<in> set (map tr_time (tr_rows trace)) \<and> j \<in> set (scenario_cols trace)
                   then Some (spec_step_volume trace demand t j) else None))
       \<and> (\<forall>rows' demand'.
             length rows' = length demand'
             \<and> mset (zip rows' demand') = mset (zip (tr_rows trace) demand) \<longrightarrow>
             contam_vol (trace\<lparr>tr_rows := rows'\<rparr>) demand' = contam_vol trace demand))"
proof (intro conjI impI allI)
  fix i assume "i < length (tr_rows trace)"
  then show "mul_axis0 (tr_rows trace) demand ! i
         = (tr_rows trace ! i,
            if i < length demand then Some (0.01 * dm_demand (demand ! i)) else None)"
    by (rule mul_axis0_nth)
next
  fix t j
  assume "map (\<lambda>r. (tr_time r, tr_node r)) (tr_rows trace)
            = map (\<lambda>d. (dm_time d, dm_node d)) demand
          \<and> distinct (map (\<lambda>d. (dm_time d, dm_node d)) demand)"
  then show "contam_vol trace demand (t, j)
                = (if t \<in> set (map tr_time (tr_rows trace)) \<and> j \<in> set (scenario_cols trace)
                   then Some (spec_step_volume trace demand t j) else None)"
    by (intro contam_vol_same_pairs) simp_all
next
  fix rows' demand'
  assume same: "map (\<lambda>r. (tr_time r, tr_node r)) (tr_rows trace)
            = map (\<lambda>d. (dm_time d, dm_node d)) demand
          \<and> distinct (map (\<lambda>d. (dm_time d, dm_node d)) demand)"
    and re: "length rows' = length demand'
             \<and> mset (zip rows' demand') = mset (zip (tr_rows trace) demand)"
  from same have len: "length (tr_rows trace) = length demand" by (metis length_map)
  from contam_vol_reorder [OF len, of rows' demand' trace] re
  show "contam_vol (trace\<lparr>tr_rows := rows'\<rparr>) demand' = contam_vol trace demand"
    by simp
qed

lemma ex_same_pairs:
  "map (\<lambda>r. (tr_time r, tr_node r)) (tr_rows ex_trace)
     = map (\<lambda>d. (dm_time d, dm_node d)) ex_demand
   \<and> distinct (map (\<lambda>d. (dm_time d, dm_node d)) ex_demand)"
  by (simp add: ex_trace_def ex_demand_def)

lemma ex_common_reordering:
  "length ex_rows_swapped = length ex_demand_swapped
   \<and> mset (zip ex_rows_swapped ex_demand_swapped) = mset (zip (tr_rows ex_trace) ex_demand)"
  by (simp add: ex_rows_swapped_def ex_demand_swapped_def ex_trace_def ex_demand_def
      add_mset_commute)

theorem contam_vol_aligned_by_row_witness:
  "contam_vol ex_trace ex_demand (0, 1) = Some (spec_step_volume ex_trace ex_demand 0 1)
   \<and> spec_step_volume ex_trace ex_demand 0 1 = 2.04
   \<and> contam_vol (ex_trace\<lparr>tr_rows := ex_rows_swapped\<rparr>) ex_demand_swapped
       = contam_vol ex_trace ex_demand"
proof -
  from contam_vol_aligned_by_row [of ex_trace ex_demand] ex_same_pairs
  have a: "\<forall>t j. contam_vol ex_trace ex_demand (t, j)
                = (if t \<in> set (map tr_time (tr_rows ex_trace)) \<and> j \<in> set (scenario_cols ex_trace)
                   then Some (spec_step_volume ex_trace ex_demand t j) else None)"
    and b: "\<forall>rows' demand'.
             length rows' = length demand'
             \<and> mset (zip rows' demand') = mset (zip (tr_rows ex_trace) ex_demand) \<longrightarrow>
             contam_vol (ex_trace\<lparr>tr_rows := rows'\<rparr>) demand' = contam_vol ex_trace ex_demand"
    by blast+
  have "contam_vol ex_trace ex_demand (0, 1) = Some (spec_step_volume ex_trace ex_demand 0 1)"
    using a [rule_format, of 0 1] by (simp add: ex_trace_def)
  moreover have "spec_step_volume ex_trace ex_demand 0 1 = 2.04"
    by (simp add: spec_step_volume_def demand_of_def ex_trace_def ex_demand_def)
  moreover have "contam_vol (ex_trace\<lparr>tr_rows := ex_rows_swapped\<rparr>) ex_demand_swapped
       = contam_vol ex_trace ex_demand"
    using b ex_common_reordering by blast
  ultimately show ?thesis by blast
qed

text \<open>
  C4 as stated fails: the swapped demand table lists the same (time, node) pairs as the
  trace, each once, but the percentage 100 of node 1 at 0 s is multiplied by the demand 4
  of node 2, the demand in the same row position; the per-timestep volume is 4.02, not
  the 2.04 that the (time, node) alignment gives.
\<close>

theorem contam_vol_time_node_alignment_counterexample:
  "set (map (\<lambda>r. (tr_time r, tr_node r)) (tr_rows ex_trace))
     = set (map (\<lambda>d. (dm_time d, dm_node d)) ex_demand_swapped)
   \<and> distinct (map (\<lambda>d. (dm_time d, dm_node d)) ex_demand_swapped)
   \<and> contam_vol ex_trace ex_demand_swapped (0, 1) = Some 4.02
   \<and> spec_step_volume ex_trace ex_demand_swapped 0 1 = 2.04
   \<and> snd (contaminated_volume
            \<lparr>arg_trace = ex_trace, arg_demand = ex_demand_swapped, arg_det_time = ex_det_time,
             arg_int_ids = True\<rparr>)
       = Inr ex_volume_swapped"
proof -
  have "set (map (\<lambda>r. (tr_time r, tr_node r)) (tr_rows ex_trace))
     = set (map (\<lambda>d. (dm_time d, dm_node d)) ex_demand_swapped)"
    by (auto simp: ex_trace_def ex_demand_swapped_def)
  moreover have "distinct (map (\<lambda>d. (dm_time d, dm_node d)) ex_demand_swapped)"
    by (simp add: ex_demand_swapped_def)
  moreover have "contam_vol ex_trace ex_demand_swapped (0, 1) = Some 4.02"
    by (simp add: contam_vol_def nansum_def mul_cell_def ex_trace_def ex_demand_swapped_def)
  moreover have "spec_step_volume ex_trace ex_demand_swapped 0 1 = 2.04"
    by (simp add: spec_step_volume_def demand_of_def ex_trace_def ex_demand_swapped_def)
  moreover have "snd (contaminated_volume
            \<lparr>arg_trace = ex_trace, arg_demand = ex_demand_swapped, arg_det_time = ex_det_time,
             arg_int_ids = True\<rparr>)
       = Inr ex_volume_swapped"
    by (simp add: contaminated_volume_def ex_max_sim_time clamp_time_def astype_int_def
      cast_cell_def is_finite_def int64_cast_def is_int64_def contam_vol_def nansum_def mul_cell_def ex_det_time_def ex_volume_swapped_def Let_def)
     (simp add: ex_trace_def ex_demand_swapped_def)
  ultimately show ?thesis by blast
qed

section \<open>Properties of the simulation drivers\<close>

lemma os_remove_cases:
  "CHR 0x00 \<notin> set path \<Longrightarrow>
   os_remove path w =
     (if path \<in> w_files w \<and> path \<notin> w_locked w then Inr () else Inl OSError,
      w\<lparr>w_removals := w_removals w @ [path],
        w_files := w_files w - ({path} - w_locked w)\<rparr>)"
  by (auto simp: os_remove_def Let_def intro!: world.equality)

lemma clean_tmp_loop_result:
  "CHR 0x00 \<notin> set p \<Longrightarrow> \<forall>e\<in>set exts. CHR 0x00 \<notin> set e \<Longrightarrow>
   clean_tmp_loop p exts w =
     (Inr (), w\<lparr>w_removals := w_removals w @ map ((@) p) exts,
                w_files := w_files w - (set (map ((@) p) exts) - w_locked w)\<rparr>)"
proof (induction exts arbitrary: w)
  case Nil
  then show ?case by simp
next
  case (Cons e exts)
  then have nul: "CHR 0x00 \<notin> set (p @ e)" and rest: "\<forall>e\<in>set exts. CHR 0x00 \<notin> set e"
    by simp_all
  show ?case
    by (auto simp: os_remove_cases [OF nul] Cons.IH [OF Cons.prems(1) rest]
          intro!: world.equality)
qed

lemma clean_tmp_result:
  "CHR 0x00 \<notin> set p \<Longrightarrow>
   clean_tmp p w =
     (Inr (), w\<lparr>w_removals := w_removals w @ [p @ ''.inp'', p @ ''.bin'', p @ ''.hyd'', p @ ''.rpt''],
                w_files := w_files w - ({p @ ''.inp'', p @ ''.bin'', p @ ''.hyd'', p @ ''.rpt''}
                                         - w_locked w)\<rparr>)"
  by (simp add: clean_tmp_def clean_tmp_loop_result del: clean_tmp_loop.simps)

lemma clean_tmp_nul:
  "CHR 0x00 \<in> set p \<Longrightarrow>
   clean_tmp p w = (Inl ValueError, w\<lparr>w_removals := w_removals w @ [p @ ''.inp'']\<rparr>)"
  by (simp add: clean_tmp_def os_remove_def Let_def)

lemma clean_tmp_Inr:
  assumes "clean_tmp p w = (Inr u, w')"
  shows "CHR 0x00 \<notin> set p"
    and "w' = w\<lparr>w_removals := w_removals w @ [p @ ''.inp'', p @ ''.bin'', p @ ''.hyd'', p @ ''.rpt''],
                w_files := w_files w - ({p @ ''.inp'', p @ ''.bin'', p @ ''.hyd'', p @ ''.rpt''}
                                         - w_locked w)\<rparr>"
proof -
  show nul: "CHR 0x00 \<notin> set p"
    using assms clean_tmp_nul [of p w] by auto
  from clean_tmp_result [OF nul, of w] assms
  show "w' = w\<lparr>w_removals := w_removals w @ [p @ ''.inp'', p @ ''.bin'', p @ ''.hyd'', p @ ''.rpt''],
                w_files := w_files w - ({p @ ''.inp'', p @ ''.bin'', p @ ''.hyd'', p @ ''.rpt''}
                                         - w_locked w)\<rparr>"
    by simp
qed

lemma clean_tmp_cases:
  "(\<exists>w'. clean_tmp p w = (Inr (), w')) \<or> (\<exists>w'. clean_tmp p w = (Inl ValueError, w'))"
  using clean_tmp_result [of p w] clean_tmp_nul [of p w] by blast

lemma run_sim_world:
  assumes "run_sim sim wn fp w = (res, w')"
  shows "w_runs w' = w_runs w @ [opt_trace_node wn]"
    and "w_locked w' = w_locked w"
    and "w_removals w' = w_removals w"
    and "\<exists>files'. sim wn fp (w_files w) = (res, files')"
  using assms by (auto simp: run_sim_def Let_def split: prod.splits)

lemma run_injections_Inr:
  assumes "run_injections sim fp wn nodes w = (Inr runs, w1)"
  shows "length runs = length nodes
       \<and> w_runs w1 = w_runs w @ map Some nodes
       \<and> w_locked w1 = w_locked w
       \<and> w_removals w1 = w_removals w
       \<and> (\<forall>k<length nodes. \<exists>files files'.
             sim (wn\<lparr>opt_trace_node := Some (nodes ! k)\<rparr>) fp files = (Inr (runs ! k), files'))"
  using assms
proof (induction nodes arbitrary: wn w runs)
  case Nil
  then show ?case by simp
next
  case (Cons node nodes)
  let ?wn = "wn\<lparr>opt_trace_node := Some node\<rparr>"
  from Cons.prems obtain r w' rest where
    rs: "run_sim sim ?wn fp w = (Inr r, w')"
    and ri: "run_injections sim fp ?wn nodes w' = (Inr rest, w1)"
    and runs: "runs = r # rest"
    by (auto split: prod.splits sum.splits)
  note w' = run_sim_world [OF rs]
  from Cons.IH [OF ri]
  have ih: "length rest = length nodes" "w_runs w1 = w_runs w' @ map Some nodes"
    "w_locked w1 = w_locked w'" "w_removals w1 = w_removals w'"
    "\<forall>k<length nodes. \<exists>files files'.
        sim (wn\<lparr>opt_trace_node := Some (nodes ! k)\<rparr>) fp files = (Inr (rest ! k), files')"
    by simp_all
  have "\<exists>files files'. sim (wn\<lparr>opt_trace_node := Some ((node # nodes) ! k)\<rparr>) fp files
                         = (Inr (runs ! k), files')"
    if "k < length (node # nodes)" for k
  proof (cases k)
    case 0
    with w'(4) runs show ?thesis by auto
  next
    case (Suc k')
    with that ih(5) runs show ?thesis by simp
  qed
  with ih w' runs show ?case by simp
qed

lemma run_injections_total:
  assumes "\<forall>wn' files. \<exists>r files'. sim wn' fp files = (Inr r, files')"
  shows "\<exists>runs w1. run_injections sim fp wn nodes w = (Inr runs, w1)"
proof (induction nodes arbitrary: wn w)
  case Nil
  then show ?case by simp
next
  case (Cons node nodes)
  let ?wn = "wn\<lparr>opt_trace_node := Some node\<rparr>"
  from assms obtain r files' where "sim ?wn fp (w_files w) = (Inr r, files')" by blast
  then obtain w' where rs: "run_sim sim ?wn fp w = (Inr r, w')"
    by (simp add: run_sim_def)
  from Cons [of ?wn w'] obtain rest w1 where
    "run_injections sim fp ?wn nodes w' = (Inr rest, w1)" by blast
  with rs show ?case by simp
qed

lemma injection_nodes_config [simp]:
  "injection_nodes ((set_config wn d ts)\<lparr>opt_quality_parameter := q\<rparr>) inj_nodes
     = injection_nodes wn inj_nodes"
  by (simp add: injection_nodes_def set_config_def split: option.splits)

lemma contamination_Inr:
  assumes "contamination sim wn inj_nodes d ts fp w = (Inr trace, w')"
  shows "\<exists>runs w1.
     run_injections sim fp ((set_config wn d ts)\<lparr>opt_quality_parameter := ''TRACE''\<rparr>)
         (injection_nodes wn inj_nodes) w = (Inr runs, w1)
     \<and> runs \<noteq> []
     \<and> clean_tmp (get_file_prefix fp) w1 = (Inr (), w')
     \<and> trace = stack_traces (injection_nodes wn inj_nodes) runs (sr_index (runs ! 0))"
  using assms unfolding contamination_def Let_def injection_nodes_config
  by (auto split: prod.splits sum.splits list.splits)

lemma contamination_returns:
  assumes "run_injections sim fp ((set_config wn d ts)\<lparr>opt_quality_parameter := ''TRACE''\<rparr>)
         (injection_nodes wn inj_nodes) w = (Inr runs, w1)"
    and "runs \<noteq> []" and "CHR 0x00 \<notin> set (get_file_prefix fp)"
  shows "\<exists>trace w'. contamination sim wn inj_nodes d ts fp w = (Inr trace, w')"
  using assms unfolding contamination_def Let_def injection_nodes_config
  by (cases runs) (simp_all add: clean_tmp_result)

lemma find_zip_first:
  "length xs = length ys \<Longrightarrow> k < length xs \<Longrightarrow> \<forall>k'<k. xs ! k' \<noteq> xs ! k \<Longrightarrow>
     find (\<lambda>(a, b). a = xs ! k) (zip xs ys) = Some (xs ! k, ys ! k)"
proof (induction xs ys arbitrary: k rule: list_induct2)
  case Nil
  then show ?case by simp
next
  case (Cons x xs y ys)
  show ?case
  proof (cases k)
    case 0
    then show ?thesis by simp
  next
    case (Suc j)
    from Cons.prems(2) Suc have ne: "x \<noteq> xs ! j" by force
    have "\<forall>k'<j. xs ! k' \<noteq> xs ! j"
      using Cons.prems(2) Suc by force
    with Cons.IH [of j] Cons.prems(1) Suc ne show ?thesis by simp
  qed
qed

text \<open>
  C5, amended. Whenever \<open>contamination\<close> returns a table, there was at least one injection
  node (all junctions of the network when no list is given), the simulator has run exactly
  once per injection node, in the order given, each run with that node as trace node, and
  the table stacks the quality tables of the runs: its columns are time, node and one
  column per injection node, in that order; it has one row per (time, node) entry of the
  index of the runs; the cell in the column of an injection node is the quality that the
  run of that node reports (the first such run, should a node be listed twice). It returns
  a table whenever there is an injection node, no run raises and the file prefix has no NUL
  byte.
\<close>

theorem contamination_stacks_runs:
  "(\<forall>trace w'.
      contamination sim wn inj_nodes duration timestep file_prefix w = (Inr trace, w') \<longrightarrow>
        injection_nodes wn inj_nodes \<noteq> []
      \<and> w_runs w' = w_runs w @ map Some (injection_nodes wn inj_nodes)
      \<and> frame_columns trace
          = Time_label # Node_label # map Scenario_label (injection_nodes wn inj_nodes)
      \<and> (\<exists>runs.
            length runs = length (injection_nodes wn inj_nodes)
          \<and> (\<forall>k<length (injection_nodes wn inj_nodes). \<exists>files files'.
                sim ((set_config wn duration timestep)
                       \<lparr>opt_quality_parameter := ''TRACE'',
                        opt_trace_node := Some (injection_nodes wn inj_nodes ! k)\<rparr>)
                    file_prefix files = (Inr (runs ! k), files'))
          \<and> map (\<lambda>r. (tr_time r, tr_node r)) (tr_rows trace) = sr_index (runs ! 0)
          \<and> (\<forall>i<length (tr_rows trace). \<forall>k<length (injection_nodes wn inj_nodes).
                (\<forall>k'<k. injection_nodes wn inj_nodes ! k' \<noteq> injection_nodes wn inj_nodes ! k) \<longrightarrow>
                tr_conc (tr_rows trace ! i) (injection_nodes wn inj_nodes ! k)
                  = sr_quality (runs ! k) (sr_index (runs ! 0) ! i))))
   \<and> (injection_nodes wn inj_nodes \<noteq> []
        \<and> (\<forall>wn' files. \<exists>r files'. sim wn' file_prefix files = (Inr r, files'))
        \<and> CHR 0x00 \<notin> set (get_file_prefix file_prefix) \<longrightarrow>
        (\<exists>trace w'. contamination sim wn inj_nodes duration timestep file_prefix w = (Inr trace, w')))"
proof (intro conjI allI impI)
  let ?inj = "injection_nodes wn inj_nodes"
  let ?wn1 = "(set_config wn duration timestep)\<lparr>opt_quality_parameter := ''TRACE''\<rparr>"
  {
    fix trace w'
    assume c: "contamination sim wn inj_nodes duration timestep file_prefix w = (Inr trace, w')"
    from contamination_Inr [OF c] obtain runs w1 where
      ri: "run_injections sim file_prefix ?wn1 ?inj w = (Inr runs, w1)"
      and ne: "runs \<noteq> []"
      and cl: "clean_tmp (get_file_prefix file_prefix) w1 = (Inr (), w')"
      and tr: "trace = stack_traces ?inj runs (sr_index (runs ! 0))"
      by blast
    from run_injections_Inr [OF ri]
    have len: "length runs = length ?inj"
      and runs: "w_runs w1 = w_runs w @ map Some ?inj"
      and sims: "\<forall>k<length ?inj. \<exists>files files'.
             sim (?wn1\<lparr>opt_trace_node := Some (?inj ! k)\<rparr>) file_prefix files
               = (Inr (runs ! k), files')"
      by simp_all
    from len ne show "?inj \<noteq> []" by auto
    from clean_tmp_Inr(2) [OF cl] runs
    show "w_runs w' = w_runs w @ map Some ?inj" by simp
    show "frame_columns trace = Time_label # Node_label # map Scenario_label ?inj"
      by (simp add: tr frame_columns_def stack_traces_def)
    have keys: "map (\<lambda>r. (tr_time r, tr_node r)) (tr_rows trace) = sr_index (runs ! 0)"
      by (simp add: tr stack_traces_def o_def split_def)
    have cells: "tr_conc (tr_rows trace ! i) (?inj ! k) = sr_quality (runs ! k) (sr_index (runs ! 0) ! i)"
      if i: "i < length (tr_rows trace)" and k: "k < length ?inj"
        and first: "\<forall>k'<k. ?inj ! k' \<noteq> ?inj ! k"
      for i k
    proof -
      from i have i': "i < length (sr_index (runs ! 0))"
        by (simp add: tr stack_traces_def)
      have "find (\<lambda>(a, b). a = ?inj ! k) (zip ?inj runs) = Some (?inj ! k, runs ! k)"
        using len k first by (intro find_zip_first) simp_all
      then show ?thesis
        using i' by (simp add: tr stack_traces_def split_def)
    qed
    from len sims keys cells
    show "\<exists>runs.
            length runs = length ?inj
          \<and> (\<forall>k<length ?inj. \<exists>files files'.
                sim ((set_config wn duration timestep)
                       \<lparr>opt_quality_parameter := ''TRACE'',
                        opt_trace_node := Some (?inj ! k)\<rparr>)
                    file_prefix files = (Inr (runs ! k), files'))
          \<and> map (\<lambda>r. (tr_time r, tr_node r)) (tr_rows trace) = sr_index (runs ! 0)
          \<and> (\<forall>i<length (tr_rows trace). \<forall>k<length ?inj.
                (\<forall>k'<k. ?inj ! k' \<noteq> ?inj ! k) \<longrightarrow>
                tr_conc (tr_rows trace ! i) (?inj ! k)
                  = sr_quality (runs ! k) (sr_index (runs ! 0) ! i))"
      by (intro exI [of _ runs]) simp
  }
  assume a: "?inj \<noteq> []
        \<and> (\<forall>wn' files. \<exists>r files'. sim wn' file_prefix files = (Inr r, files'))
        \<and> CHR 0x00 \<notin> set (get_file_prefix file_prefix)"
  then obtain runs w1 where
    ri: "run_injections sim file_prefix ?wn1 ?inj w = (Inr runs, w1)"
    using run_injections_total [of sim "file_prefix" ?wn1 ?inj w] by blast
  from run_injections_Inr [OF ri] a have "runs \<noteq> []" by auto
  with ri a show "\<exists>trace w'.
      contamination sim wn inj_nodes duration timestep file_prefix w = (Inr trace, w')"
    by (intro contamination_returns) simp_all
qed

lemma contamination_total:
  assumes "injection_nodes wn inj_nodes \<noteq> []"
    and "\<forall>wn' files. \<exists>r files'. sim wn' fp files = (Inr r, files')"
    and "CHR 0x00 \<notin> set (get_file_prefix fp)"
  shows "\<exists>trace w'. contamination sim wn inj_nodes d ts fp w = (Inr trace, w')"
proof -
  let ?wn1 = "(set_config wn d ts)\<lparr>opt_quality_parameter := ''TRACE''\<rparr>"
  from run_injections_total [of sim fp ?wn1 "injection_nodes wn inj_nodes" w] assms(2)
  obtain runs w1 where
    ri: "run_injections sim fp ?wn1 (injection_nodes wn inj_nodes) w = (Inr runs, w1)"
    by blast
  from run_injections_Inr [OF ri] assms(1) have "runs \<noteq> []" by auto
  with ri assms(3) show ?thesis by (intro contamination_returns) simp_all
qed

text \<open>
  C5 as stated fails: with an empty list of injection nodes there is no run, and the call
  raises ValueError instead of returning a table.
\<close>

theorem contamination_no_injection_node_counterexample:
  "contamination ex_sim ex_wn (Some []) 7200 3600 None ex_world = (Inl ValueError, ex_world)"
  by (simp add: contamination_def injection_nodes_def Let_def)

lemma ex_injection_nodes: "injection_nodes ex_wn None = [1, 2]"
  by (simp add: injection_nodes_def ex_wn_def)

lemma ex_sim_run:
  "ex_sim wn' None files = (Inr r, files') \<Longrightarrow>
     sr_index r = [(0, 1), (0, 2), (3600, 1), (3600, 2)]
     \<and> sr_quality r = (\<lambda>k. if Some (snd k) = opt_trace_node wn' then 100 else 50)"
  by (auto simp: ex_sim_def)

theorem contamination_stacks_runs_witness:
  "\<exists>trace w'. contamination ex_sim ex_wn None 7200 3600 None ex_world = (Inr trace, w')
     \<and> w_runs w' = [Some 1, Some 2]
     \<and> frame_columns trace = [Time_label, Node_label, Scenario_label 1, Scenario_label 2]
     \<and> map (\<lambda>r. (tr_time r, tr_node r)) (tr_rows trace) = [(0, 1), (0, 2), (3600, 1), (3600, 2)]
     \<and> tr_conc (tr_rows trace ! 0) 1 = 100
     \<and> tr_conc (tr_rows trace ! 0) 2 = 50"
proof -
  note main = contamination_stacks_runs [of ex_sim ex_wn None 7200 3600 None ex_world]
  have pre: "injection_nodes ex_wn None \<noteq> []
        \<and> (\<forall>wn' files. \<exists>r files'. ex_sim wn' None files = (Inr r, files'))
        \<and> CHR 0x00 \<notin> set (get_file_prefix None)"
    by (simp add: ex_injection_nodes ex_sim_def get_file_prefix_def)
  with main obtain trace w' where
    c: "contamination ex_sim ex_wn None 7200 3600 None ex_world = (Inr trace, w')"
    by blast
  with main obtain runs where
    runs: "w_runs w' = w_runs ex_world @ map Some (injection_nodes ex_wn None)"
    and cols: "frame_columns trace
          = Time_label # Node_label # map Scenario_label (injection_nodes ex_wn None)"
    and sims: "\<forall>k<length (injection_nodes ex_wn None). \<exists>files files'.
                ex_sim ((set_config ex_wn 7200 3600)
                       \<lparr>opt_quality_parameter := ''TRACE'',
                        opt_trace_node := Some (injection_nodes ex_wn None ! k)\<rparr>)
                    None files = (Inr (runs ! k), files')"
    and keys: "map (\<lambda>r. (tr_time r, tr_node r)) (tr_rows trace) = sr_index (runs ! 0)"
    and cells: "\<forall>i<length (tr_rows trace). \<forall>k<length (injection_nodes ex_wn None).
                (\<forall>k'<k. injection_nodes ex_wn None ! k' \<noteq> injection_nodes ex_wn None ! k) \<longrightarrow>
                tr_conc (tr_rows trace ! i) (injection_nodes ex_wn None ! k)
                  = sr_quality (runs ! k) (sr_index (runs ! 0) ! i)"
    by blast
  from sims [rule_format, of 0] obtain f0 f0' where
    "ex_sim ((set_config ex_wn 7200 3600)
               \<lparr>opt_quality_parameter := ''TRACE'', opt_trace_node := Some 1\<rparr>) None f0
       = (Inr (runs ! 0), f0')"
    by (auto simp: ex_injection_nodes)
  from ex_sim_run [OF this]
  have r0: "sr_index (runs ! 0) = [(0, 1), (0, 2), (3600, 1), (3600, 2)]"
    "sr_quality (runs ! 0) (0, 1) = 100"
    by simp_all
  from sims [rule_format, of 1] obtain f1 f1' where
    "ex_sim ((set_config ex_wn 7200 3600)
               \<lparr>opt_quality_parameter := ''TRACE'', opt_trace_node := Some 2\<rparr>) None f1
       = (Inr (runs ! 1), f1')"
    by (auto simp: ex_injection_nodes)
  from ex_sim_run [OF this]
  have r1: "sr_quality (runs ! 1) (0, 1) = 50"
    by simp
  from keys r0 have k: "map (\<lambda>r. (tr_time r, tr_node r)) (tr_rows trace)
                         = [(0, 1), (0, 2), (3600, 1), (3600, 2)]"
    by simp
  from arg_cong [OF k, of length] have len: "length (tr_rows trace) = 4"
    by simp
  from cells [rule_format, of 0 0] len r0
  have c0: "tr_conc (tr_rows trace ! 0) 1 = 100"
    by (simp add: ex_injection_nodes)
  from cells [rule_format, of 0 1] len r0 r1
  have c1: "tr_conc (tr_rows trace ! 0) 2 = 50"
    by (simp add: ex_injection_nodes)
  from c runs cols k c0 c1 show ?thesis
    by (simp add: ex_injection_nodes ex_world_def)
qed

text \<open>
  C6, amended. For a file prefix without NUL byte the cleanup never raises: it attempts the
  removal of the four files prefix + .inp, .bin, .hyd, .rpt, in this order, whatever
  removals fail, and every one of them that the operating system lets go is gone
  afterwards. After every call of \<open>contamination\<close> and of \<open>water_demand\<close> that returns
  its table, the cleanup has made its four attempts and none of the four files of the
  prefix (\<open>temp\<close> by default) is left, except one whose removal was refused.
  \<open>water_demand\<close> returns its table whenever the run does not raise and the prefix has
  no NUL byte.
\<close>

theorem clean_tmp_after_returning_calls:
  "(CHR 0x00 \<notin> set p \<longrightarrow>
       fst (clean_tmp p w) = Inr ()
     \<and> w_removals (snd (clean_tmp p w))
         = w_removals w @ [p @ ''.inp'', p @ ''.bin'', p @ ''.hyd'', p @ ''.rpt'']
     \<and> w_files (snd (clean_tmp p w))
         = w_files w - ({p @ ''.inp'', p @ ''.bin'', p @ ''.hyd'', p @ ''.rpt''} - w_locked w))
   \<and> (\<forall>trace w'.
         contamination sim wn inj_nodes duration timestep file_prefix w = (Inr trace, w') \<longrightarrow>
           w_removals w'
             = w_removals w @ map ((@) (get_file_prefix file_prefix))
                                [''.inp'', ''.bin'', ''.hyd'', ''.rpt'']
         \<and> (\<forall>ext\<in>{''.inp'', ''.bin'', ''.hyd'', ''.rpt''}.
               get_file_prefix file_prefix @ ext \<in> w_files w' \<longrightarrow>
               get_file_prefix file_prefix @ ext \<in> w_locked w'))
   \<and> (\<forall>demand w'.
         water_demand sim wn duration timestep file_prefix w = (Inr demand, w') \<longrightarrow>
           w_removals w'
             = w_removals w @ map ((@) (get_file_prefix file_prefix))
                                [''.inp'', ''.bin'', ''.hyd'', ''.rpt'']
         \<and> (\<forall>ext\<in>{''.inp'', ''.bin'', ''.hyd'', ''.rpt''}.
               get_file_prefix file_prefix @ ext \<in> w_files w' \<longrightarrow>
               get_file_prefix file_prefix @ ext \<in> w_locked w'))
   \<and> ((\<exists>r files'. sim (set_config wn duration timestep) file_prefix (w_files w) = (Inr r, files'))
        \<and> CHR 0x00 \<notin> set (get_file_prefix file_prefix) \<longrightarrow>
        (\<exists>demand w'. water_demand sim wn duration timestep file_prefix w = (Inr demand, w')))"
proof -
  let ?p = "get_file_prefix file_prefix"
  have clean: "w_removals w' = w_removals v @ map ((@) q) [''.inp'', ''.bin'', ''.hyd'', ''.rpt'']
       \<and> (\<forall>ext\<in>{''.inp'', ''.bin'', ''.hyd'', ''.rpt''}.
             q @ ext \<in> w_files w' \<longrightarrow> q @ ext \<in> w_locked w')"
    if "clean_tmp q v = (Inr (), w')" for q and v w' :: "'a world"
    using clean_tmp_Inr(2) [OF that] by simp
  have c: "w_removals w' = w_removals w @ map ((@) ?p) [''.inp'', ''.bin'', ''.hyd'', ''.rpt'']
       \<and> (\<forall>ext\<in>{''.inp'', ''.bin'', ''.hyd'', ''.rpt''}.
             ?p @ ext \<in> w_files w' \<longrightarrow> ?p @ ext \<in> w_locked w')"
    if "contamination sim wn inj_nodes duration timestep file_prefix w = (Inr trace, w')"
    for trace w'
  proof -
    from contamination_Inr [OF that] obtain runs w1 where
      ri: "run_injections sim file_prefix
             ((set_config wn duration timestep)\<lparr>opt_quality_parameter := ''TRACE''\<rparr>)
             (injection_nodes wn inj_nodes) w = (Inr runs, w1)"
      and cl: "clean_tmp ?p w1 = (Inr (), w')"
      by blast
    from run_injections_Inr [OF ri] have "w_removals w1 = w_removals w" by simp
    with clean [OF cl] show ?thesis by simp
  qed
  have d: "w_removals w' = w_removals w @ map ((@) ?p) [''.inp'', ''.bin'', ''.hyd'', ''.rpt'']
       \<and> (\<forall>ext\<in>{''.inp'', ''.bin'', ''.hyd'', ''.rpt''}.
             ?p @ ext \<in> w_files w' \<longrightarrow> ?p @ ext \<in> w_locked w')"
    if wd: "water_demand sim wn duration timestep file_prefix w = (Inr demand, w')"
    for demand w'
  proof -
    from wd obtain r w1 where
      rs: "run_sim sim (set_config wn duration timestep) file_prefix w = (Inr r, w1)"
      and cl: "clean_tmp ?p w1 = (Inr (), w')"
      unfolding water_demand_def Let_def
      by (auto split: prod.splits sum.splits)
    from run_sim_world(3) [OF rs] clean [OF cl] show ?thesis by simp
  qed
  have t: "\<exists>demand w'. water_demand sim wn duration timestep file_prefix w = (Inr demand, w')"
    if "\<exists>r files'. sim (set_config wn duration timestep) file_prefix (w_files w) = (Inr r, files')"
      and nul: "CHR 0x00 \<notin> set ?p"
  proof -
    from that(1) obtain r w1 where
      "run_sim sim (set_config wn duration timestep) file_prefix w = (Inr r, w1)"
      by (auto simp: run_sim_def)
    then show ?thesis
      by (simp add: water_demand_def Let_def clean_tmp_result [OF nul])
  qed
  have a: "CHR 0x00 \<notin> set p \<longrightarrow>
       fst (clean_tmp p w) = Inr ()
     \<and> w_removals (snd (clean_tmp p w))
         = w_removals w @ [p @ ''.inp'', p @ ''.bin'', p @ ''.hyd'', p @ ''.rpt'']
     \<and> w_files (snd (clean_tmp p w))
         = w_files w - ({p @ ''.inp'', p @ ''.bin'', p @ ''.hyd'', p @ ''.rpt''} - w_locked w)"
    by (simp add: clean_tmp_result)
  from a c d t show ?thesis by blast
qed

text \<open>
  C6 as stated fails: a call of \<open>contamination\<close> without injection node raises in line 60
  and a call of \<open>water_demand\<close> whose run raises leaves in line 100, both before the
  cleanup; the file \<^verbatim>\<open>temp.inp\<close>, which could be removed, is still there after the call
  and no removal was attempted.
\<close>

theorem clean_tmp_skipped_counterexample:
  "''temp.inp'' \<in> w_files ex_world_stale
   \<and> ''temp.inp'' \<notin> w_locked ex_world_stale
   \<and> contamination ex_sim ex_wn (Some []) 7200 3600 None ex_world_stale
       = (Inl ValueError, ex_world_stale)
   \<and> water_demand ex_sim_raising ex_wn 7200 3600 None ex_world_stale
       = (Inl EpanetException,
          \<lparr>w_files = {''temp.inp''}, w_locked = {}, w_removals = [], w_runs = [None]\<rparr>)"
  by (simp add: contamination_def water_demand_def injection_nodes_def run_sim_def
      ex_sim_raising_def ex_world_stale_def ex_wn_def set_config_def get_file_prefix_def Let_def)

lemma ex_contamination_world:
  "snd (contamination ex_sim ex_wn (Some [1]) 7200 3600 None ex_world)
     = \<lparr>w_files = {''temp.hyd'', ''net.inp''}, w_locked = {''temp.hyd''},
        w_removals = [''temp.inp'', ''temp.bin'', ''temp.hyd'', ''temp.rpt''],
        w_runs = [Some 1]\<rparr>"
  by (auto simp: contamination_def injection_nodes_def run_sim_def ex_sim_def ex_world_def
      ex_wn_def set_config_def get_file_prefix_def clean_tmp_result Let_def)

lemma ex_water_demand_world:
  "snd (water_demand ex_sim ex_wn 7200 3600 None ex_world)
     = \<lparr>w_files = {''temp.hyd'', ''net.inp''}, w_locked = {''temp.hyd''},
        w_removals = [''temp.inp'', ''temp.bin'', ''temp.hyd'', ''temp.rpt''],
        w_runs = [None]\<rparr>"
  by (auto simp: water_demand_def run_sim_def ex_sim_def ex_world_def ex_wn_def set_config_def
      get_file_prefix_def clean_tmp_result Let_def)

theorem clean_tmp_after_returning_calls_witness:
  "fst (clean_tmp ''temp'' ex_world) = Inr ()
   \<and> w_removals (snd (clean_tmp ''temp'' ex_world))
        = [''temp.inp'', ''temp.bin'', ''temp.hyd'', ''temp.rpt'']
   \<and> (\<exists>trace w'. contamination ex_sim ex_wn (Some [1]) 7200 3600 None ex_world = (Inr trace, w')
         \<and> w_removals w' = [''temp.inp'', ''temp.bin'', ''temp.hyd'', ''temp.rpt'']
         \<and> ''temp.inp'' \<notin> w_files w' \<and> ''temp.bin'' \<notin> w_files w'
         \<and> ''temp.rpt'' \<notin> w_files w'
         \<and> ''temp.hyd'' \<in> w_files w' \<and> ''temp.hyd'' \<in> w_locked w')
   \<and> (\<exists>demand w'. water_demand ex_sim ex_wn 7200 3600 None ex_world = (Inr demand, w')
         \<and> w_removals w' = [''temp.inp'', ''temp.bin'', ''temp.hyd'', ''temp.rpt'']
         \<and> ''temp.inp'' \<notin> w_files w' \<and> ''temp.bin'' \<notin> w_files w'
         \<and> ''temp.rpt'' \<notin> w_files w'
         \<and> ''temp.hyd'' \<in> w_files w' \<and> ''temp.hyd'' \<in> w_locked w')"
proof -
  note wd = clean_tmp_after_returning_calls
    [of "''temp''" ex_world ex_sim ex_wn "Some [1]" 7200 3600 None]
  have nul: "CHR 0x00 \<notin> set ''temp''" by simp
  have run: "(\<exists>r files'. ex_sim (set_config ex_wn 7200 3600) None (w_files ex_world) = (Inr r, files'))
        \<and> CHR 0x00 \<notin> set (get_file_prefix None)"
    by (simp add: ex_sim_def get_file_prefix_def)
  from wd nul have a: "fst (clean_tmp ''temp'' ex_world) = Inr ()"
    and b: "w_removals (snd (clean_tmp ''temp'' ex_world))
       = w_removals ex_world @ [''temp.inp'', ''temp.bin'', ''temp.hyd'', ''temp.rpt'']"
    by simp_all
  from wd run obtain demand w' where
    d: "water_demand ex_sim ex_wn 7200 3600 None ex_world = (Inr demand, w')"
    by blast
  with wd have e: "w_removals w'
             = w_removals ex_world @ map ((@) (get_file_prefix None))
                                [''.inp'', ''.bin'', ''.hyd'', ''.rpt'']"
    "\<forall>ext\<in>{''.inp'', ''.bin'', ''.hyd'', ''.rpt''}.
               get_file_prefix None @ ext \<in> w_files w' \<longrightarrow>
               get_file_prefix None @ ext \<in> w_locked w'"
    by blast+
  from d ex_water_demand_world
  have w': "w' = \<lparr>w_files = {''temp.hyd'', ''net.inp''}, w_locked = {''temp.hyd''},
        w_removals = [''temp.inp'', ''temp.bin'', ''temp.hyd'', ''temp.rpt''],
        w_runs = [None]\<rparr>"
    by simp
  have dw: "w_removals w' = [''temp.inp'', ''temp.bin'', ''temp.hyd'', ''temp.rpt'']
         \<and> ''temp.inp'' \<notin> w_files w' \<and> ''temp.bin'' \<notin> w_files w' \<and> ''temp.rpt'' \<notin> w_files w'
         \<and> ''temp.hyd'' \<in> w_files w' \<and> ''temp.hyd'' \<in> w_locked w'"
    using e by (simp add: w' get_file_prefix_def)
  have tot: "injection_nodes ex_wn (Some [1]) \<noteq> []
        \<and> (\<forall>wn' files. \<exists>r files'. ex_sim wn' None files = (Inr r, files'))
        \<and> CHR 0x00 \<notin> set (get_file_prefix None)"
    by (simp add: injection_nodes_def ex_sim_def get_file_prefix_def)
  then obtain trace v' where
    c: "contamination ex_sim ex_wn (Some [1]) 7200 3600 None ex_world = (Inr trace, v')"
    using contamination_total [of ex_wn "Some [1]" ex_sim None 7200 3600 ex_world] by blast
  with wd have f: "w_removals v'
             = w_removals ex_world @ map ((@) (get_file_prefix None))
                                [''.inp'', ''.bin'', ''.hyd'', ''.rpt'']"
    "\<forall>ext\<in>{''.inp'', ''.bin'', ''.hyd'', ''.rpt''}.
               get_file_prefix None @ ext \<in> w_files v' \<longrightarrow>
               get_file_prefix None @ ext \<in> w_locked v'"
    by blast+
  from c ex_contamination_world
  have v': "v' = \<lparr>w_files = {''temp.hyd'', ''net.inp''}, w_locked = {''temp.hyd''},
        w_removals = [''temp.inp'', ''temp.bin'', ''temp.hyd'', ''temp.rpt''],
        w_runs = [Some 1]\<rparr>"
    by simp
  have cw: "w_removals v' = [''temp.inp'', ''temp.bin'', ''temp.hyd'', ''temp.rpt'']
         \<and> ''temp.inp'' \<notin> w_files v' \<and> ''temp.bin'' \<notin> w_files v' \<and> ''temp.rpt'' \<notin> w_files v'
         \<and> ''temp.hyd'' \<in> w_files v' \<and> ''temp.hyd'' \<in> w_locked v'"
    using f by (simp add: v' get_file_prefix_def)
  from a b c cw d dw show ?thesis
    by (simp add: ex_world_def)
qed

end
